theory Spec2Isabelle
  imports Complex_Main
begin

section \<open>The order webhook of the loyalty ledger\<close>

text \<open>
  The development embeds the webhook route whose \<open>action\<close> awards loyalty points when an
  order is created (one point per 10 currency units of the order's subtotal), together with
  the two tables it touches. The embedding starts after \<open>authenticate.webhook\<close> has
  returned: the topic it yields and the request body are the inputs of \<open>action\<close>.

  Conventions of the embedding:
  \<^item> strings are lists of 8-bit characters, read as the code units below 256;
  \<^item> a JavaScript number is \<open>NaN\<close>, an infinity, or a finite value kept as an exact
    rational: rounding to binary64 is not modelled, so a statement that depends on the
    value of a subtotal is made for plain amounts only (at most thirteen digits and two
    decimals), where the points of the exact value and of the binary64 value are the same;
  \<^item> the order is read at the types the processor relies on: the customer's \<open>id\<close> and
    the subtotal are strings or absent, the order's \<open>id\<close> is absent, \<open>null\<close>, a string
    or an integral number;
  \<^item> the data store is a record of two tables, passed in and returned; every awaited
    store call either yields its result or throws, and what makes a call throw from outside
    the program (an unreachable server, a concurrent writer that took the key first) is an
    input, the \<open>fault\<close> field of the environment;
  \<^item> a thrown exception is the \<open>Inl\<close> of a sum; the store reached when it was thrown
    is kept, since the writes that came before it are not undone.
\<close>

subsection \<open>Numbers and strings of the language\<close>

datatype jsnum = NaN | Fin rat | PosInfinity | NegInfinity

text \<open>The values an order's \<open>id\<close> field is read as: absent, \<open>null\<close>, a string, or an
  integral number (below \<open>10 ^ 21\<close> in magnitude, where the conversion to a string is the
  plain decimal numeral).\<close>

datatype jsval = Undefined | Null | Str string | Num int

definition is_digit :: "char \<Rightarrow> bool" where
  "is_digit c \<longleftrightarrow> 48 \<le> (of_char c :: nat) \<and> (of_char c :: nat) \<le> 57"

definition digit_value :: "char \<Rightarrow> nat" where
  "digit_value c = of_char c - 48"

definition decimal_value :: "string \<Rightarrow> nat" where
  "decimal_value ds = foldl (\<lambda>a c. 10 * a + digit_value c) 0 ds"

text \<open>White space that \<open>parseFloat\<close> skips: tab, line feed, vertical tab, form feed,
  carriage return, space and the no-break space.\<close>

definition is_whitespace :: "char \<Rightarrow> bool" where
  "is_whitespace c \<longleftrightarrow> (of_char c :: nat) \<in> {9, 10, 11, 12, 13, 32, 160}"

definition scale10 :: "rat \<Rightarrow> int \<Rightarrow> rat" where
  "scale10 r e = (if 0 \<le> e then r * 10 ^ nat e else r / 10 ^ nat (- e))"

text \<open>The exponent part at the head of a string, \<open>0\<close> when there is none: an \<open>e\<close> or
  \<open>E\<close> that no digit follows is not part of the numeral.\<close>

definition parse_exponent :: "string \<Rightarrow> int" where
  "parse_exponent s =
     (case s of
        [] \<Rightarrow> 0
      | c # t \<Rightarrow>
          if c = CHR ''e'' \<or> c = CHR ''E'' then
            (case t of
               [] \<Rightarrow> 0
             | d # u \<Rightarrow>
                 if d = CHR ''-'' then - int (decimal_value (takeWhile is_digit u))
                 else if d = CHR ''+'' then int (decimal_value (takeWhile is_digit u))
                 else int (decimal_value (takeWhile is_digit t)))
          else 0)"

text \<open>The longest prefix that is an unsigned decimal literal: \<open>Infinity\<close>, digits with an
  optional fraction and exponent, or a fraction that starts with the point.\<close>

definition parse_unsigned :: "string \<Rightarrow> jsnum" where
  "parse_unsigned s =
     (if take 8 s = ''Infinity'' then PosInfinity
      else
        let ip = takeWhile is_digit s; r1 = dropWhile is_digit s in
        (case r1 of
           [] \<Rightarrow> if ip = [] then NaN else Fin (of_nat (decimal_value ip))
         | c # t \<Rightarrow>
             if c = CHR ''.'' then
               (let fp = takeWhile is_digit t; r2 = dropWhile is_digit t in
                if ip = [] \<and> fp = [] then NaN
                else Fin (scale10 (of_nat (decimal_value (ip @ fp)))
                            (parse_exponent r2 - int (length fp))))
             else if ip = [] then NaN
             else Fin (scale10 (of_nat (decimal_value ip)) (parse_exponent r1))))"

fun negate :: "jsnum \<Rightarrow> jsnum" where
  "negate NaN = NaN"
| "negate (Fin r) = Fin (- r)"
| "negate PosInfinity = NegInfinity"
| "negate NegInfinity = PosInfinity"

definition parseFloat :: "string \<Rightarrow> jsnum" where
  "parseFloat s =
     (case dropWhile is_whitespace s of
        [] \<Rightarrow> NaN
      | c # u \<Rightarrow>
          if c = CHR ''-'' then negate (parse_unsigned u)
          else if c = CHR ''+'' then parse_unsigned u
          else parse_unsigned (c # u))"

text \<open>\<open>x / 10\<close>, \<open>Math.floor\<close>, \<open>x <= 0\<close> and \<open>n + x\<close> on numbers. Every comparison with
  \<open>NaN\<close> is false.\<close>

fun div10 :: "jsnum \<Rightarrow> jsnum" where
  "div10 (Fin r) = Fin (r / 10)"
| "div10 x = x"

fun Math_floor :: "jsnum \<Rightarrow> jsnum" where
  "Math_floor (Fin r) = Fin (of_int \<lfloor>r\<rfloor>)"
| "Math_floor x = x"

fun le_zero :: "jsnum \<Rightarrow> bool" where
  "le_zero NaN = False"
| "le_zero (Fin r) = (r \<le> 0)"
| "le_zero PosInfinity = False"
| "le_zero NegInfinity = True"

fun plus_int :: "int \<Rightarrow> jsnum \<Rightarrow> jsnum" where
  "plus_int n (Fin r) = Fin (of_int n + r)"
| "plus_int n x = x"

fun show_nat :: "nat \<Rightarrow> string" where
  "show_nat n =
     (if n < 10 then [''0123456789'' ! n]
      else show_nat (n div 10) @ [''0123456789'' ! (n mod 10)])"

declare show_nat.simps [simp del]

definition show_int :: "int \<Rightarrow> string" where
  "show_int i = (if i < 0 then CHR ''-'' # show_nat (nat (- i)) else show_nat (nat i))"

text \<open>The string a template literal puts in for a value.\<close>

fun ToString :: "jsval \<Rightarrow> string" where
  "ToString Undefined = ''undefined''"
| "ToString Null = ''null''"
| "ToString (Str s) = s"
| "ToString (Num n) = show_int n"

text \<open>The same for a number; the processor only prints a number after \<open>Math.floor\<close>, so
  a finite one is integral.\<close>

fun Number_toString :: "jsnum \<Rightarrow> string" where
  "Number_toString NaN = ''NaN''"
| "Number_toString (Fin r) = show_int \<lfloor>r\<rfloor>"
| "Number_toString PosInfinity = ''Infinity''"
| "Number_toString NegInfinity = ''-Infinity''"

subsection \<open>The request\<close>

datatype customer = Customer (customer_id: "string option")

text \<open>The fields of the order that the processor reads. \<open>None\<close> is an absent or
  \<open>null\<close> field.\<close>

record order =
  order_id :: jsval
  customer :: "customer option"
  subtotal_price :: "string option"

text \<open>What \<open>request.json()\<close> yields: it throws on a body that is not JSON; the value is
  \<open>null\<close>, an object, or another value (which has no \<open>customer\<close> property).\<close>

datatype payload = NotJson | JsonNull | JsonOther | JsonObject order

record response =
  status :: nat
  body :: string

subsection \<open>The store\<close>

text \<open>A row of the table \<open>LoyaltyPoints\<close>; the generated surrogate key \<open>id\<close> is never
  read by the processor and is left out. \<open>customerId\<close> has a unique index, \<open>points\<close> is a
  32-bit \<open>INTEGER\<close> column.\<close>

record LoyaltyPoints =
  customerId :: string
  points :: int
  updatedAt :: nat

text \<open>A row of the table \<open>_prisma_migrations\<close>, as far as the processor writes it. The
  repository's schema does not declare the table, so the model does not decide whether a
  second row of the same name is refused: an insert that the store rejects (the key was
  taken by a concurrent delivery) is a fault of the call.\<close>

record migration =
  name :: string
  applied_steps_count :: nat

record store =
  prisma_migrations :: "migration list"
  loyaltyPoints :: "LoyaltyPoints list"

datatype exn =
    BodyNotJson | NullDereference | DuplicateKey | RecordNotFound | InvalidValue
  | StoreUnavailable

datatype db_call = QueryRaw | ExecuteRaw | FindUnique | Update | Create

text \<open>The environment of one invocation: the clock read by \<open>new Date()\<close>, the store
  calls that fail for a reason outside the program, and the message the thrown error
  carries.\<close>

record env =
  now :: nat
  fault :: "db_call \<Rightarrow> exn option"
  message :: "exn \<Rightarrow> string"

text \<open>The five store calls of the route: the raw \<open>SELECT\<close> of the marker (one row at
  most), the raw \<open>INSERT\<close> of the marker, and \<open>findUnique\<close>, \<open>update\<close> and \<open>create\<close> on
  the ledger. The store refuses a value that the integer column cannot hold, an update of
  a row that is not there and a second row for the same customer.\<close>

definition queryRaw :: "env \<Rightarrow> string \<Rightarrow> store \<Rightarrow> exn + migration list" where
  "queryRaw e key st =
     (case fault e QueryRaw of
        Some x \<Rightarrow> Inl x
      | None \<Rightarrow> Inr (take 1 (filter (\<lambda>m. name m = key) (prisma_migrations st))))"

definition executeRaw :: "env \<Rightarrow> string \<Rightarrow> store \<Rightarrow> exn + store" where
  "executeRaw e key st =
     (case fault e ExecuteRaw of
        Some x \<Rightarrow> Inl x
      | None \<Rightarrow>
          Inr (st\<lparr>prisma_migrations :=
                    prisma_migrations st @ [\<lparr>name = key, applied_steps_count = 1\<rparr>]\<rparr>))"

definition findUnique :: "env \<Rightarrow> string \<Rightarrow> store \<Rightarrow> exn + LoyaltyPoints option" where
  "findUnique e cid st =
     (case fault e FindUnique of
        Some x \<Rightarrow> Inl x
      | None \<Rightarrow> Inr (find (\<lambda>r. customerId r = cid) (loyaltyPoints st)))"

text \<open>What an \<open>Int\<close> column takes: an integral number of 32 bits.\<close>

fun int32_of :: "jsnum \<Rightarrow> int option" where
  "int32_of (Fin r) =
     (if r = of_int \<lfloor>r\<rfloor> \<and> - (2 ^ 31) \<le> \<lfloor>r\<rfloor> \<and> \<lfloor>r\<rfloor> < 2 ^ 31 then Some \<lfloor>r\<rfloor> else None)"
| "int32_of x = None"

definition update_loyaltyPoints :: "env \<Rightarrow> string \<Rightarrow> jsnum \<Rightarrow> store \<Rightarrow> exn + store" where
  "update_loyaltyPoints e cid v st =
     (case fault e Update of
        Some x \<Rightarrow> Inl x
      | None \<Rightarrow>
          (case int32_of v of
             None \<Rightarrow> Inl InvalidValue
           | Some p \<Rightarrow>
               if \<not> list_ex (\<lambda>r. customerId r = cid) (loyaltyPoints st) then Inl RecordNotFound
               else Inr (st\<lparr>loyaltyPoints :=
                              map (\<lambda>r. if customerId r = cid
                                        then r\<lparr>points := p, updatedAt := now e\<rparr> else r)
                                (loyaltyPoints st)\<rparr>)))"

definition create_loyaltyPoints :: "env \<Rightarrow> string \<Rightarrow> jsnum \<Rightarrow> store \<Rightarrow> exn + store" where
  "create_loyaltyPoints e cid v st =
     (case fault e Create of
        Some x \<Rightarrow> Inl x
      | None \<Rightarrow>
          (case int32_of v of
             None \<Rightarrow> Inl InvalidValue
           | Some p \<Rightarrow>
               if list_ex (\<lambda>r. customerId r = cid) (loyaltyPoints st) then Inl DuplicateKey
               else Inr (st\<lparr>loyaltyPoints :=
                              loyaltyPoints st @
                                [\<lparr>customerId = cid, points = p, updatedAt = now e\<rparr>]\<rparr>)))"

subsection \<open>The processor\<close>

definition event_key :: "jsval \<Rightarrow> string" where
  "event_key orderId = ''order_'' @ ToString orderId @ ''_processed''"

text \<open>The responses the route returns.\<close>

definition unsupported_topic :: "string \<Rightarrow> response" where
  "unsupported_topic topic =
     \<lparr>status = 400, body = ''Webhook topic '' @ topic @ '' not supported''\<rparr>"

definition no_customer :: response where
  "no_customer = \<lparr>status = 200, body = ''No customer associated with this order''\<rparr>"

definition below_threshold :: response where
  "below_threshold = \<lparr>status = 200, body = ''No points earned (subtotal too low)''\<rparr>"

definition already_processed :: response where
  "already_processed = \<lparr>status = 200, body = ''Order already processed''\<rparr>"

definition added :: "jsnum \<Rightarrow> string \<Rightarrow> response" where
  "added pts cid =
     \<lparr>status = 200,
      body = ''Added '' @ Number_toString pts @ '' points to customer '' @ cid\<rparr>"

definition failed :: "env \<Rightarrow> exn \<Rightarrow> response" where
  "failed e x = \<lparr>status = 500, body = ''Error processing webhook: '' @ message e x\<rparr>"

text \<open>\<open>parseFloat(order.subtotal_price || "0")\<close>: an absent, \<open>null\<close> or empty
  subtotal is read as \<open>"0"\<close>. Then \<open>Math.floor(subtotal / 10)\<close>.\<close>

definition subtotal_of :: "order \<Rightarrow> jsnum" where
  "subtotal_of ord =
     parseFloat
       (case subtotal_price ord of None \<Rightarrow> ''0'' | Some s \<Rightarrow> if s = [] then ''0'' else s)"

definition points_of :: "order \<Rightarrow> jsnum" where
  "points_of ord = Math_floor (div10 (subtotal_of ord))"

text \<open>The two writes: the marker row, then the balance of the customer.\<close>

definition award :: "env \<Rightarrow> string \<Rightarrow> string \<Rightarrow> jsnum \<Rightarrow> store \<Rightarrow> (exn + response) \<times> store" where
  "award e key cid pts st =
     (case executeRaw e key st of
        Inl x \<Rightarrow> (Inl x, st)
      | Inr st1 \<Rightarrow>
          (case findUnique e cid st1 of
             Inl x \<Rightarrow> (Inl x, st1)
           | Inr (Some existingPoints) \<Rightarrow>
               (case update_loyaltyPoints e cid (plus_int (points existingPoints) pts) st1 of
                  Inl x \<Rightarrow> (Inl x, st1)
                | Inr st2 \<Rightarrow> (Inr (added pts cid), st2))
           | Inr None \<Rightarrow>
               (case create_loyaltyPoints e cid pts st1 of
                  Inl x \<Rightarrow> (Inl x, st1)
                | Inr st2 \<Rightarrow> (Inr (added pts cid), st2))))"

text \<open>The body of the \<open>try\<close> block. A customer is present when \<open>order.customer\<close> and
  \<open>order.customer.id\<close> are both truthy; for a string that is: not empty.\<close>

definition process :: "env \<Rightarrow> payload \<Rightarrow> store \<Rightarrow> (exn + response) \<times> store" where
  "process e p st =
     (case p of
        NotJson \<Rightarrow> (Inl BodyNotJson, st)
      | JsonNull \<Rightarrow> (Inl NullDereference, st)
      | JsonOther \<Rightarrow> (Inr no_customer, st)
      | JsonObject ord \<Rightarrow>
          (case customer ord of
             None \<Rightarrow> (Inr no_customer, st)
           | Some c \<Rightarrow>
               (case customer_id c of
                  None \<Rightarrow> (Inr no_customer, st)
                | Some cid \<Rightarrow>
                    if cid = [] then (Inr no_customer, st)
                    else if le_zero (points_of ord) then (Inr below_threshold, st)
                    else
                      (case queryRaw e (event_key (order_id ord)) st of
                         Inl x \<Rightarrow> (Inl x, st)
                       | Inr existingOrder \<Rightarrow>
                           if length existingOrder > 0 then (Inr already_processed, st)
                           else award e (event_key (order_id ord)) cid (points_of ord) st))))"

definition action :: "env \<Rightarrow> string \<Rightarrow> payload \<Rightarrow> store \<Rightarrow> response \<times> store" where
  "action e topic p st =
     (if topic \<noteq> ''orders/create'' then (unsupported_topic topic, st)
      else
        (case process e p st of
           (Inl x, st') \<Rightarrow> (failed e x, st')
         | (Inr r, st') \<Rightarrow> (r, st')))"

subsection \<open>Vocabulary of the properties\<close>

text \<open>The order names a customer: the guard of the processor lets it through.\<close>

definition has_customer :: "order \<Rightarrow> string \<Rightarrow> bool" where
  "has_customer ord cid \<longleftrightarrow> customer ord = Some (Customer (Some cid)) \<and> cid \<noteq> []"

text \<open>A marker row of that name is in the table.\<close>

definition marked :: "string \<Rightarrow> store \<Rightarrow> bool" where
  "marked key st \<longleftrightarrow> list_ex (\<lambda>m. name m = key) (prisma_migrations st)"

text \<open>The ledger entry of a customer, and the invariant of the ledger: one entry for a
  customer at most.\<close>

definition entry :: "store \<Rightarrow> string \<Rightarrow> LoyaltyPoints option" where
  "entry st cid = find (\<lambda>r. customerId r = cid) (loyaltyPoints st)"

definition one_entry_each :: "store \<Rightarrow> bool" where
  "one_entry_each st \<longleftrightarrow> distinct (map customerId (loyaltyPoints st))"

text \<open>From one store to a later one, every ledger entry is still at its place, for the
  same customer, with a balance that is equal or larger.\<close>

definition ledger_grows :: "store \<Rightarrow> store \<Rightarrow> bool" where
  "ledger_grows st st' \<longleftrightarrow>
     list_all2 (\<lambda>r r'. customerId r' = customerId r \<and> points r \<le> points r')
       (loyaltyPoints st) (take (length (loyaltyPoints st)) (loyaltyPoints st'))"

text \<open>No store call fails for an outside reason.\<close>

definition healthy :: "env \<Rightarrow> bool" where
  "healthy e \<longleftrightarrow>
     fault e QueryRaw = None \<and> fault e ExecuteRaw = None \<and> fault e FindUnique = None \<and>
     fault e Update = None \<and> fault e Create = None"

text \<open>The balance of a customer; a customer without an entry has none.\<close>

definition balance :: "store \<Rightarrow> string \<Rightarrow> int" where
  "balance st cid = (case entry st cid of None \<Rightarrow> 0 | Some row \<Rightarrow> points row)"

definition fits_column :: "int \<Rightarrow> bool" where
  "fits_column n \<longleftrightarrow> - (2 ^ 31) \<le> n \<and> n < 2 ^ 31"

text \<open>A plain amount: one to thirteen digits, then possibly a point and up to two
  digits; no sign, no exponent, no white space. Its value is the integer part plus the
  fraction.\<close>

definition is_amount :: "string \<Rightarrow> bool" where
  "is_amount s \<longleftrightarrow>
     takeWhile is_digit s \<noteq> [] \<and> length (takeWhile is_digit s) \<le> 13 \<and>
     (case dropWhile is_digit s of
        [] \<Rightarrow> True
      | c # fp \<Rightarrow> c = CHR ''.'' \<and> length fp \<le> 2 \<and> list_all is_digit fp)"

definition amount :: "string \<Rightarrow> rat" where
  "amount s =
     of_nat (decimal_value (takeWhile is_digit s)) +
     of_nat (decimal_value (drop 1 (dropWhile is_digit s))) /
       10 ^ length (drop 1 (dropWhile is_digit s))"

text \<open>Deliveries handled one after the other, each in its own environment.\<close>

fun deliver :: "(env \<times> string \<times> payload) list \<Rightarrow> store \<Rightarrow> store" where
  "deliver [] st = st"
| "deliver ((e, topic, p) # ds) st = deliver ds (snd (action e topic p st))"

subsection \<open>Sample inputs\<close>

text \<open>Environments for the examples: the clock stands at \<open>t\<close>, the message of an
  error is the name of its kind; in \<open>working\<close> no store call fails, in \<open>failing\<close> the
  given call does.\<close>

fun describe :: "exn \<Rightarrow> string" where
  "describe BodyNotJson = ''BodyNotJson''"
| "describe NullDereference = ''NullDereference''"
| "describe DuplicateKey = ''DuplicateKey''"
| "describe RecordNotFound = ''RecordNotFound''"
| "describe InvalidValue = ''InvalidValue''"
| "describe StoreUnavailable = ''StoreUnavailable''"

definition working :: "nat \<Rightarrow> env" where
  "working t = \<lparr>now = t, fault = Map.empty, message = describe\<rparr>"

definition failing :: "nat \<Rightarrow> db_call \<Rightarrow> exn \<Rightarrow> env" where
  "failing t c x = \<lparr>now = t, fault = [c \<mapsto> x], message = describe\<rparr>"

text \<open>An order of a customer, with its identifier and subtotal.\<close>

definition order_for :: "jsval \<Rightarrow> string \<Rightarrow> string \<Rightarrow> order" where
  "order_for oid cid subtotal =
     \<lparr>order_id = oid, customer = Some (Customer (Some cid)), subtotal_price = Some subtotal\<rparr>"

definition empty_store :: store where
  "empty_store = \<lparr>prisma_migrations = [], loyaltyPoints = []\<rparr>"

section \<open>How the processor runs\<close>

subsection \<open>Running the model on a given input\<close>

text \<open>The floor of a quotient of numerals, and the definitions to unfold when the processor
  is run on a concrete request.\<close>

lemma floor_rat_numeral:
  "\<lfloor>numeral a / numeral b :: rat\<rfloor> = numeral a div numeral b"
  using floor_divide_of_int_eq [of "numeral a" "numeral b", where ?'a = rat] by simp

lemma floor_rat_neg_numeral:
  "\<lfloor>- (numeral a / numeral b) :: rat\<rfloor> = - numeral a div numeral b"
  using floor_divide_of_int_eq [of "- numeral a" "numeral b", where ?'a = rat] by simp

lemmas parse_defs =
  parseFloat_def parse_unsigned_def parse_exponent_def is_whitespace_def is_digit_def
  decimal_value_def digit_value_def scale10_def

lemmas run_defs =
  action_def process_def award_def points_of_def subtotal_of_def event_key_def queryRaw_def executeRaw_def
  findUnique_def update_loyaltyPoints_def create_loyaltyPoints_def added_def failed_def
  no_customer_def below_threshold_def already_processed_def unsupported_topic_def
  show_int_def show_nat.simps Let_def floor_rat_numeral floor_rat_neg_numeral

lemmas sample_defs = working_def failing_def order_for_def empty_store_def

subsection \<open>Amounts\<close>

text \<open>On a plain amount \<open>parseFloat\<close> yields the value of the numeral.\<close>

lemma decimal_value_Nil: "decimal_value [] = 0"
  by (simp add: decimal_value_def)

lemma decimal_value_append:
  "decimal_value (xs @ ys) = decimal_value xs * 10 ^ length ys + decimal_value ys"
proof -
  define f where "f = (\<lambda>a c. 10 * a + digit_value c)"
  have step: "foldl f a ys = a * 10 ^ length ys + foldl f 0 ys" for a
  proof (induction ys arbitrary: a)
    case Nil
    show ?case by simp
  next
    case (Cons y ys)
    have "foldl f a (y # ys) = foldl f (10 * a + digit_value y) ys"
      by (simp add: f_def)
    also have "\<dots> = (10 * a + digit_value y) * 10 ^ length ys + foldl f 0 ys"
      by (rule Cons.IH)
    finally have l: "foldl f a (y # ys) =
        (10 * a + digit_value y) * 10 ^ length ys + foldl f 0 ys" .
    have "foldl f 0 (y # ys) = foldl f (digit_value y) ys"
      by (simp add: f_def)
    also have "\<dots> = digit_value y * 10 ^ length ys + foldl f 0 ys"
      by (rule Cons.IH)
    finally have r: "foldl f 0 (y # ys) = digit_value y * 10 ^ length ys + foldl f 0 ys" .
    show ?case unfolding l r by (simp add: algebra_simps)
  qed
  show ?thesis
    using step [of "foldl f 0 xs"] by (simp add: decimal_value_def f_def)
qed

lemma digit_not_space: "is_digit c \<Longrightarrow> \<not> is_whitespace c"
  by (auto simp: is_digit_def is_whitespace_def)

lemma digit_not_sign: "is_digit c \<Longrightarrow> c \<noteq> CHR ''-'' \<and> c \<noteq> CHR ''+'' \<and> c \<noteq> CHR ''I''"
  by (auto simp: is_digit_def)

lemma takeWhile_all: "list_all P xs \<Longrightarrow> takeWhile P xs = xs \<and> dropWhile P xs = []"
  by (induction xs) auto



lemma parse_unsigned_amount:
  assumes "is_amount s"
  shows "parse_unsigned s = Fin (amount s)"
proof -
  obtain c t where s: "s = c # t" and c: "is_digit c"
    using assms by (cases s) (auto simp: is_amount_def split: if_splits)
  have inf: "take 8 s \<noteq> ''Infinity''"
    using s digit_not_sign [OF c] by auto
  have ip: "takeWhile is_digit s \<noteq> []" using assms by (simp add: is_amount_def)
  show ?thesis
  proof (cases "dropWhile is_digit s")
    case Nil
    show ?thesis using inf ip by (simp add: parse_unsigned_def amount_def Nil Let_def decimal_value_Nil)
  next
    case (Cons d fp)
    with assms have d: "d = CHR ''.''" and fp: "list_all is_digit fp"
      by (simp_all add: is_amount_def)
    have tw: "takeWhile is_digit fp = fp" "dropWhile is_digit fp = []"
      using takeWhile_all [OF fp] by simp_all
    have val: "scale10 (of_nat (decimal_value (takeWhile is_digit s @ fp))) (- int (length fp)) =
          amount s"
    proof (cases "fp = []")
      case True
      then show ?thesis by (simp add: scale10_def amount_def Cons decimal_value_Nil)
    next
      case False
      then show ?thesis
        by (simp add: scale10_def amount_def Cons decimal_value_append add_divide_distrib)
    qed
    have "parse_unsigned s =
          Fin (scale10 (of_nat (decimal_value (takeWhile is_digit s @ fp))) (- int (length fp)))"
      using inf ip by (simp add: parse_unsigned_def Cons d tw parse_exponent_def Let_def)
    with val show ?thesis by simp
  qed
qed

lemma parseFloat_amount:
  assumes "is_amount s"
  shows "parseFloat s = Fin (amount s)"
proof -
  obtain c t where s: "s = c # t" and c: "is_digit c"
    using assms by (cases s) (auto simp: is_amount_def split: if_splits)
  have "dropWhile is_whitespace s = s" using s digit_not_space [OF c] by simp
  then show ?thesis
    using s digit_not_sign [OF c] parse_unsigned_amount [OF assms]
    by (simp add: parseFloat_def)
qed

lemma points_of_amount:
  assumes "subtotal_price ord = Some s" "is_amount s"
  shows "points_of ord = Fin (of_int \<lfloor>amount s / 10\<rfloor>)"
proof -
  have "s \<noteq> []" using assms(2) by (auto simp: is_amount_def)
  then show ?thesis
    using assms(1) parseFloat_amount [OF assms(2)]
    by (simp add: points_of_def subtotal_of_def)
qed


lemma digit_value_le: "is_digit c \<Longrightarrow> digit_value c \<le> 9"
  by (auto simp: is_digit_def digit_value_def)

lemma decimal_value_less:
  "list_all is_digit ds \<Longrightarrow> decimal_value ds < 10 ^ length ds"
proof (induction ds rule: rev_induct)
  case Nil
  show ?case by (simp add: decimal_value_Nil)
next
  case (snoc d ds)
  then have "decimal_value ds < 10 ^ length ds" "digit_value d \<le> 9"
    by (simp_all add: digit_value_le)
  moreover have "decimal_value (ds @ [d]) = decimal_value ds * 10 + digit_value d"
    by (simp add: decimal_value_def)
  ultimately show ?case by simp
qed

lemma amount_hundredths:
  assumes "is_amount s"
  shows "\<exists>N::nat. amount s = of_nat N / 100 \<and> N < 10 ^ 15"
proof -
  let ?ip = "takeWhile is_digit s" and ?fp = "drop 1 (dropWhile is_digit s)"
  have "list_all is_digit ?ip"
    by (simp add: list_all_iff) (meson set_takeWhileD)
  then have "decimal_value ?ip < 10 ^ length ?ip" by (rule decimal_value_less)
  also have "\<dots> \<le> 10 ^ 13"
    using assms by (intro power_increasing) (simp_all add: is_amount_def)
  finally have ip: "decimal_value ?ip < 10 ^ 13" .
  have fp: "list_all is_digit ?fp \<and> length ?fp \<le> 2"
  proof (cases "dropWhile is_digit s")
    case Nil
    show ?thesis by (simp add: Nil)
  next
    case (Cons d r)
    with assms show ?thesis by (simp add: is_amount_def)
  qed
  then have fpv: "decimal_value ?fp < 10 ^ length ?fp"
    using decimal_value_less by blast
  consider "length ?fp = 0" | "length ?fp = 1" | "length ?fp = 2"
    using fp by linarith
  then show ?thesis
  proof cases
    case 1
    then have "amount s = of_nat (decimal_value ?ip * 100) / 100"
      using fpv by (simp add: amount_def)
    moreover have "decimal_value ?ip * 100 < 10 ^ 15" using ip by simp
    ultimately show ?thesis by blast
  next
    case 2
    then have "amount s = of_nat (decimal_value ?ip * 100 + decimal_value ?fp * 10) / 100"
      by (simp add: amount_def add_divide_distrib)
    moreover have "decimal_value ?ip * 100 + decimal_value ?fp * 10 < 10 ^ 15"
      using ip fpv 2 by simp
    ultimately show ?thesis by blast
  next
    case 3
    then have "amount s = of_nat (decimal_value ?ip * 100 + decimal_value ?fp) / 100"
      by (simp add: amount_def add_divide_distrib)
    moreover have "decimal_value ?ip * 100 + decimal_value ?fp < 10 ^ 15"
      using ip fpv 3 by simp
    ultimately show ?thesis by blast
  qed
qed

lemma rounding_keeps_floor:
  fixes d1 d2 :: rat
  assumes "N < 10 ^ 15" "N mod 1000 \<noteq> 0"
    and "\<bar>d1\<bar> \<le> 1 / 2 ^ 53" "\<bar>d2\<bar> \<le> 1 / 2 ^ 53"
  shows "\<lfloor>of_nat N / 100 * (1 + d1) / 10 * (1 + d2)\<rfloor> = int (N div 1000)"
proof -
  define v :: rat where "v = of_nat N / 1000"
  define k where "k = N div 1000"
  define f where "f = N mod 1000"
  have N: "N = k * 1000 + f" by (simp add: k_def f_def)
  have f: "1 \<le> f" "f \<le> 999" using assms(2) by (simp_all add: f_def) 
  have vk: "v = of_nat k + of_nat f / 1000"
    by (simp add: v_def N add_divide_distrib)
  have lo: "of_nat k + 1 / 1000 \<le> v"
    using f(1) by (simp add: vk divide_right_mono)
  have hi: "v \<le> of_nat k + 999 / 1000"
    using f(2) by (simp add: vk divide_right_mono)
  have v0: "0 \<le> v" by (simp add: v_def)
  have "of_nat N < (10 ^ 15 :: rat)"
    using assms(1) by (metis of_nat_less_iff of_nat_numeral of_nat_power)
  then have v1: "v < 10 ^ 12" by (simp add: v_def)
  have "\<bar>d1 * d2\<bar> \<le> (1 / 2 ^ 53) * 1"
    unfolding abs_mult using assms(3,4) by (intro mult_mono) simp_all
  then have "\<bar>d1 + d2 + d1 * d2\<bar> \<le> 3 / 2 ^ 53"
    using assms(3,4) by linarith
  then have "v * \<bar>d1 + d2 + d1 * d2\<bar> \<le> v * (3 / 2 ^ 53)"
    using v0 by (rule mult_left_mono)
  also have "\<dots> \<le> 10 ^ 12 * (3 / 2 ^ 53)"
    using v1 by (intro mult_right_mono) simp_all
  also have "\<dots> < 1 / 1000" by simp
  finally have err: "\<bar>v * (d1 + d2 + d1 * d2)\<bar> < 1 / 1000"
    using v0 by (simp add: abs_mult)
  have x: "of_nat N / 100 * (1 + d1) / 10 * (1 + d2) = v + v * (d1 + d2 + d1 * d2)"
    by (simp add: v_def algebra_simps)
  have "of_nat k \<le> v + v * (d1 + d2 + d1 * d2)" "v + v * (d1 + d2 + d1 * d2) < of_nat k + 1"
    using lo hi err by linarith+
  then have "\<lfloor>v + v * (d1 + d2 + d1 * d2)\<rfloor> = int k"
    by (intro floor_unique) simp_all
  then show ?thesis unfolding x k_def .
qed

text \<open>The exact value stands for the binary64 one on amounts. The two roundings of the
  program, of the parsed numeral and of its tenth, each change their operand by a factor
  \<open>1 + d\<close> with \<open>\<bar>d\<bar> \<le> 2\<^sup>-\<^sup>5\<^sup>3\<close>; a tenth of an amount that is not a whole number
  is a thousandth away from the next one at least, which is more than the two roundings can
  move a value below \<open>10\<^sup>1\<^sup>2\<close>. A tenth that is a whole number comes from a whole
  subtotal below \<open>2\<^sup>5\<^sup>3\<close>, where both operations are exact.\<close>

lemma amount_floor_stable:
  fixes d1 d2 :: rat
  assumes "is_amount s" "of_int \<lfloor>amount s / 10\<rfloor> \<noteq> amount s / 10"
    and "\<bar>d1\<bar> \<le> 1 / 2 ^ 53" "\<bar>d2\<bar> \<le> 1 / 2 ^ 53"
  shows "\<lfloor>amount s * (1 + d1) / 10 * (1 + d2)\<rfloor> = \<lfloor>amount s / 10\<rfloor>"
proof -
  from amount_hundredths [OF assms(1)] obtain N :: nat where
    N: "amount s = of_nat N / 100" "N < 10 ^ 15" by blast
  have tenth: "amount s / 10 = of_nat N / of_nat 1000"
    unfolding N(1) by simp
  have fl: "\<lfloor>amount s / 10\<rfloor> = int (N div 1000)"
    unfolding tenth by (rule floor_divide_of_nat_eq)
  have "N mod 1000 \<noteq> 0"
  proof
    assume "N mod 1000 = 0"
    then have "1000 dvd N" by (simp add: dvd_eq_mod_eq_0)
    then obtain q where q: "N = 1000 * q" by (rule dvdE)
    have "amount s / 10 = of_nat q"
      unfolding tenth q by simp
    moreover have "\<lfloor>amount s / 10\<rfloor> = int q"
      unfolding fl q by simp
    ultimately show False using assms(2) by simp
  qed
  from rounding_keeps_floor [OF N(2) this assms(3,4)]
  have "\<lfloor>of_nat N / 100 * (1 + d1) / 10 * (1 + d2)\<rfloor> = int (N div 1000)" .
  then have r: "\<lfloor>amount s * (1 + d1) / 10 * (1 + d2)\<rfloor> = int (N div 1000)"
    unfolding N(1) .
  show ?thesis unfolding fl by (fact r)
qed

subsection \<open>Lists and numbers\<close>

lemma find_list_ex: "find P xs = Some x \<Longrightarrow> list_ex P xs"
  by (auto simp: find_Some_iff list_ex_iff)

lemma find_None_list_ex: "find P xs = None \<Longrightarrow> \<not> list_ex P xs"
  by (simp add: find_None_iff list_ex_iff)

lemma find_map_update:
  assumes "find (\<lambda>r. customerId r = cid) xs = Some row"
  shows "find (\<lambda>r. customerId r = cid)
           (map (\<lambda>r. if customerId r = cid then r\<lparr>points := p, updatedAt := t\<rparr> else r) xs) =
         Some (row\<lparr>points := p, updatedAt := t\<rparr>)"
  using assms by (induction xs) (auto split: if_splits)

lemma find_append_new:
  assumes "find P xs = None" "P y"
  shows "find P (xs @ [y]) = Some y"
  using assms by (induction xs) (auto split: if_splits)

lemma find_unique:
  assumes "distinct (map f xs)" "find (\<lambda>r. f r = c) xs = Some row" "r \<in> set xs" "f r = c"
  shows "r = row"
proof -
  from assms(2) have "row \<in> set xs" "f row = c"
    by (auto simp: find_Some_iff)
  with assms(1,3,4) show ?thesis
    by (simp add: distinct_map inj_on_def)
qed

lemma plus_int_int: "plus_int m (Fin (of_int n)) = Fin (of_int (m + n))"
  by simp

lemma int32_of_int: "int32_of (Fin (of_int k)) = (if fits_column k then Some k else None)"
  by (simp add: fits_column_def)

lemma award_raises:
  assumes "\<not> le_zero pts" "int32_of (plus_int old pts) = Some p"
  shows "old \<le> p"
proof (cases pts)
  case (Fin r)
  with assms have "0 < r" "p = \<lfloor>of_int old + r\<rfloor>"
    by (auto split: if_splits)
  then show ?thesis by (simp add: le_floor_iff)
qed (use assms in simp_all)

subsection \<open>The guards\<close>

lemma action_other_topic:
  "topic \<noteq> ''orders/create'' \<Longrightarrow> action e topic p st = (unsupported_topic topic, st)"
  by (simp add: action_def)

lemma process_has_customer:
  assumes "has_customer ord cid"
  shows "process e (JsonObject ord) st =
     (if le_zero (points_of ord) then (Inr below_threshold, st)
      else
        (case queryRaw e (event_key (order_id ord)) st of
           Inl x \<Rightarrow> (Inl x, st)
         | Inr existingOrder \<Rightarrow>
             if length existingOrder > 0 then (Inr already_processed, st)
             else award e (event_key (order_id ord)) cid (points_of ord) st))"
  using assms by (simp add: process_def has_customer_def)

lemma process_without_customer:
  assumes "\<not> (\<exists>cid. has_customer ord cid)"
  shows "process e (JsonObject ord) st = (Inr no_customer, st)"
proof (cases "customer ord")
  case None
  then show ?thesis by (simp add: process_def)
next
  case (Some c)
  then show ?thesis using assms
    by (cases c) (auto simp: process_def has_customer_def split: option.splits)
qed

lemma action_without_customer:
  assumes "\<forall>cid. \<not> has_customer ord cid"
  shows "action e ''orders/create'' (JsonObject ord) st = (no_customer, st)"
  using assms by (simp add: action_def process_without_customer)

lemma action_below_threshold:
  assumes "has_customer ord cid" "le_zero (points_of ord)"
  shows "action e ''orders/create'' (JsonObject ord) st = (below_threshold, st)"
  using assms by (simp add: action_def process_has_customer)

lemma queryRaw_found:
  assumes "fault e QueryRaw = None"
  shows "\<exists>rows. queryRaw e key st = Inr rows \<and> (0 < length rows \<longleftrightarrow> marked key st)"
proof -
  have "filter (\<lambda>m. name m = key) (prisma_migrations st) \<noteq> [] \<longleftrightarrow> marked key st"
    by (simp add: marked_def list_ex_iff filter_empty_conv)
  then show ?thesis using assms by (simp add: queryRaw_def)
qed

lemma process_marked:
  assumes "has_customer ord cid" "\<not> le_zero (points_of ord)" "fault e QueryRaw = None"
    "marked (event_key (order_id ord)) st"
  shows "process e (JsonObject ord) st = (Inr already_processed, st)"
proof -
  obtain rows where "queryRaw e (event_key (order_id ord)) st = Inr rows" "0 < length rows"
    using queryRaw_found [OF assms(3)] assms(4) by blast
  then show ?thesis using assms(1,2) by (simp add: process_has_customer)
qed

lemma process_unmarked:
  assumes "has_customer ord cid" "\<not> le_zero (points_of ord)" "fault e QueryRaw = None"
    "\<not> marked (event_key (order_id ord)) st"
  shows "process e (JsonObject ord) st = award e (event_key (order_id ord)) cid (points_of ord) st"
proof -
  obtain rows where "queryRaw e (event_key (order_id ord)) st = Inr rows" "\<not> 0 < length rows"
    using queryRaw_found [OF assms(3)] assms(4) by blast
  then show ?thesis using assms(1,2) by (simp add: process_has_customer)
qed

lemma action_marked:
  assumes "has_customer ord cid" "\<not> le_zero (points_of ord)" "fault e QueryRaw = None"
    "marked (event_key (order_id ord)) st"
  shows "action e ''orders/create'' (JsonObject ord) st = (already_processed, st)"
  by (simp add: action_def process_marked [OF assms])

lemma action_unmarked:
  assumes "has_customer ord cid" "\<not> le_zero (points_of ord)" "fault e QueryRaw = None"
    "\<not> marked (event_key (order_id ord)) st"
  shows "action e ''orders/create'' (JsonObject ord) st =
           (case award e (event_key (order_id ord)) cid (points_of ord) st of
              (Inl x, st') \<Rightarrow> (failed e x, st')
            | (Inr r, st') \<Rightarrow> (r, st'))"
  by (simp add: action_def process_unmarked [OF assms])

subsection \<open>The two writes\<close>

lemma executeRaw_cases:
  "(\<exists>x. fault e ExecuteRaw = Some x \<and> executeRaw e key st = Inl x) \<or>
   (fault e ExecuteRaw = None \<and>
    executeRaw e key st =
      Inr (st\<lparr>prisma_migrations :=
                prisma_migrations st @ [\<lparr>name = key, applied_steps_count = 1\<rparr>]\<rparr>))"
  by (cases "fault e ExecuteRaw") (simp_all add: executeRaw_def)

lemma update_Inr:
  assumes "update_loyaltyPoints e cid v st = Inr st2"
  shows "\<exists>p. int32_of v = Some p \<and>
           st2 = st\<lparr>loyaltyPoints :=
                      map (\<lambda>r. if customerId r = cid
                                then r\<lparr>points := p, updatedAt := now e\<rparr> else r)
                        (loyaltyPoints st)\<rparr>"
  using assms by (auto simp: update_loyaltyPoints_def split: option.splits if_splits)

lemma create_Inr:
  assumes "create_loyaltyPoints e cid v st = Inr st2"
  shows "\<exists>p. int32_of v = Some p \<and> \<not> list_ex (\<lambda>r. customerId r = cid) (loyaltyPoints st) \<and>
           st2 = st\<lparr>loyaltyPoints :=
                      loyaltyPoints st @ [\<lparr>customerId = cid, points = p, updatedAt = now e\<rparr>]\<rparr>"
  using assms by (auto simp: create_loyaltyPoints_def split: option.splits if_splits)

lemma findUnique_Inr:
  assumes "findUnique e cid st = Inr r"
  shows "r = entry st cid"
  using assms by (auto simp: findUnique_def entry_def split: option.splits)

text \<open>What an invocation of award can do to the store.\<close>

lemma award_cases:
  fixes e key cid pts st
  defines "st1 \<equiv> st\<lparr>prisma_migrations :=
                       prisma_migrations st @ [\<lparr>name = key, applied_steps_count = 1\<rparr>]\<rparr>"
  shows "(\<exists>x. award e key cid pts st = (Inl x, st)) \<or>
         (\<exists>x. award e key cid pts st = (Inl x, st1)) \<or>
         (\<exists>row p. entry st cid = Some row \<and> int32_of (plus_int (points row) pts) = Some p \<and>
            award e key cid pts st =
              (Inr (added pts cid),
               st1\<lparr>loyaltyPoints :=
                      map (\<lambda>r. if customerId r = cid
                                then r\<lparr>points := p, updatedAt := now e\<rparr> else r)
                        (loyaltyPoints st)\<rparr>)) \<or>
         (\<exists>p. entry st cid = None \<and> int32_of pts = Some p \<and>
            award e key cid pts st =
              (Inr (added pts cid),
               st1\<lparr>loyaltyPoints :=
                      loyaltyPoints st @ [\<lparr>customerId = cid, points = p, updatedAt = now e\<rparr>]\<rparr>))"
proof -
  consider (a) x where "executeRaw e key st = Inl x" | (b) "executeRaw e key st = Inr st1"
    using executeRaw_cases [of e key st] unfolding st1_def by blast
  then show ?thesis
  proof cases
    case a
    then show ?thesis by (simp add: award_def)
  next
    case b
    have ent: "entry st1 cid = entry st cid" by (simp add: entry_def st1_def)
    have led: "loyaltyPoints st1 = loyaltyPoints st" by (simp add: st1_def)
    show ?thesis
    proof (cases "findUnique e cid st1")
      case (Inl x)
      with b show ?thesis by (simp add: award_def)
    next
      case (Inr found)
      then have f: "found = entry st cid" using findUnique_Inr ent by metis
      show ?thesis
      proof (cases found)
        case None
        show ?thesis
        proof (cases "create_loyaltyPoints e cid pts st1")
          case (Inl x)
          with b Inr None show ?thesis by (simp add: award_def)
        next
          case (Inr st2)
          from create_Inr [OF this] obtain p where
            "int32_of pts = Some p"
            "st2 = st1\<lparr>loyaltyPoints :=
                      loyaltyPoints st1 @ [\<lparr>customerId = cid, points = p, updatedAt = now e\<rparr>]\<rparr>"
            by blast
          with b \<open>findUnique e cid st1 = Inr found\<close> None Inr f led show ?thesis
            by (simp add: award_def)
        qed
      next
        case (Some row)
        show ?thesis
        proof (cases "update_loyaltyPoints e cid (plus_int (points row) pts) st1")
          case (Inl x)
          with b Inr Some show ?thesis by (simp add: award_def)
        next
          case (Inr st2)
          from update_Inr [OF this] obtain p where
            "int32_of (plus_int (points row) pts) = Some p"
            "st2 = st1\<lparr>loyaltyPoints :=
                      map (\<lambda>r. if customerId r = cid
                                then r\<lparr>points := p, updatedAt := now e\<rparr> else r)
                        (loyaltyPoints st1)\<rparr>"
            by blast
          with b \<open>findUnique e cid st1 = Inr found\<close> Some Inr f led show ?thesis
            by (simp add: award_def)
        qed
      qed
    qed
  qed
qed

lemma award_insert_fault:
  assumes "fault e ExecuteRaw = Some x"
  shows "award e key cid pts st = (Inl x, st)"
  using assms by (simp add: award_def executeRaw_def)

lemma award_update_fault:
  assumes "fault e ExecuteRaw = None" "fault e FindUnique = None" "entry st cid = Some row"
    "fault e Update = Some x"
  shows "award e key cid pts st =
           (Inl x, st\<lparr>prisma_migrations :=
                        prisma_migrations st @ [\<lparr>name = key, applied_steps_count = 1\<rparr>]\<rparr>)"
  using assms
  by (simp add: award_def executeRaw_def findUnique_def entry_def update_loyaltyPoints_def)

lemma award_create_fault:
  assumes "fault e ExecuteRaw = None" "fault e FindUnique = None" "entry st cid = None"
    "fault e Create = Some x"
  shows "award e key cid pts st =
           (Inl x, st\<lparr>prisma_migrations :=
                        prisma_migrations st @ [\<lparr>name = key, applied_steps_count = 1\<rparr>]\<rparr>)"
  using assms
  by (simp add: award_def executeRaw_def findUnique_def entry_def create_loyaltyPoints_def)

lemma healthyD:
  assumes "healthy e"
  shows "fault e QueryRaw = None" "fault e ExecuteRaw = None" "fault e FindUnique = None"
    "fault e Update = None" "fault e Create = None"
  using assms by (simp_all add: healthy_def)

lemma award_existing:
  assumes "healthy e" "entry st cid = Some row" "fits_column (points row + n)"
  shows "award e key cid (Fin (of_int n)) st =
           (Inr (added (Fin (of_int n)) cid),
            st\<lparr>prisma_migrations :=
                  prisma_migrations st @ [\<lparr>name = key, applied_steps_count = 1\<rparr>],
                loyaltyPoints :=
                  map (\<lambda>r. if customerId r = cid
                            then r\<lparr>points := points row + n, updatedAt := now e\<rparr> else r)
                    (loyaltyPoints st)\<rparr>)"
proof -
  have ex: "list_ex (\<lambda>r. customerId r = cid) (loyaltyPoints st)"
    using assms(2) unfolding entry_def by (rule find_list_ex)
  have v: "int32_of (plus_int (points row) (Fin (of_int n))) = Some (points row + n)"
    using assms(3) by (simp only: plus_int_int int32_of_int if_True)
  show ?thesis
    using healthyD [OF assms(1)] assms(2) ex v
    by (simp add: award_def executeRaw_def findUnique_def entry_def update_loyaltyPoints_def
        del: plus_int.simps int32_of.simps)
qed

lemma award_new:
  assumes "healthy e" "entry st cid = None" "fits_column n"
  shows "award e key cid (Fin (of_int n)) st =
           (Inr (added (Fin (of_int n)) cid),
            st\<lparr>prisma_migrations :=
                  prisma_migrations st @ [\<lparr>name = key, applied_steps_count = 1\<rparr>],
                loyaltyPoints :=
                  loyaltyPoints st @ [\<lparr>customerId = cid, points = n, updatedAt = now e\<rparr>]\<rparr>)"
proof -
  have ex: "\<not> list_ex (\<lambda>r. customerId r = cid) (loyaltyPoints st)"
    using assms(2) unfolding entry_def by (rule find_None_list_ex)
  have v: "int32_of (Fin (of_int n)) = Some n"
    using assms(3) by (simp only: int32_of_int if_True)
  show ?thesis
    using healthyD [OF assms(1)] assms(2) ex v
    by (simp add: award_def executeRaw_def findUnique_def entry_def create_loyaltyPoints_def
        del: int32_of.simps)
qed

subsection \<open>The responses\<close>

lemma added_other:
  "added pts cid \<noteq> no_customer" "added pts cid \<noteq> below_threshold"
  "added pts cid \<noteq> already_processed" "added pts cid \<noteq> failed e x"
  "added pts cid \<noteq> unsupported_topic t"
  "no_customer \<noteq> added pts cid" "below_threshold \<noteq> added pts cid"
  "already_processed \<noteq> added pts cid" "failed e x \<noteq> added pts cid"
  "unsupported_topic t \<noteq> added pts cid"
  by (simp_all add: added_def no_customer_def below_threshold_def already_processed_def
      failed_def unsupported_topic_def)

lemma failed_status: "status (failed e x) = 500"
  by (simp add: failed_def)

lemma process_added:
  assumes "process e p st = (Inr (added pts cid), st')"
  shows "\<exists>ord c. p = JsonObject ord \<and> has_customer ord c \<and> \<not> le_zero (points_of ord) \<and>
           award e (event_key (order_id ord)) c (points_of ord) st = (Inr (added pts cid), st')"
proof (cases p)
  case (JsonObject ord)
  show ?thesis
  proof (cases "\<exists>c. has_customer ord c")
    case False
    then show ?thesis using assms JsonObject
      by (simp add: process_without_customer added_other)
  next
    case True
    then obtain c where c: "has_customer ord c" ..
    from assms JsonObject have
      "\<not> le_zero (points_of ord) \<and>
       award e (event_key (order_id ord)) c (points_of ord) st = (Inr (added pts cid), st')"
      by (auto simp: process_has_customer [OF c] added_other split: if_splits sum.splits)
    with c JsonObject show ?thesis by blast
  qed
qed (use assms in \<open>simp_all add: process_def added_other\<close>)

lemma action_added:
  assumes "action e topic p st = (added pts cid, st')"
  shows "topic = ''orders/create'' \<and> process e p st = (Inr (added pts cid), st')"
proof -
  have t: "topic = ''orders/create''"
    using assms by (auto simp: action_def added_other split: if_splits)
  obtain r s where rs: "process e p st = (r, s)" by (cases "process e p st")
  with assms t have "r = Inr (added pts cid) \<and> s = st'"
    by (cases r) (auto simp: action_def added_other)
  with t rs show ?thesis by simp
qed

lemma process_Inr_status:
  assumes "process e p st = (Inr r, st')"
  shows "status r = 200"
proof (cases p)
  case (JsonObject ord)
  show ?thesis
  proof (cases "\<exists>c. has_customer ord c")
    case False
    then show ?thesis using assms JsonObject
      by (auto simp: process_without_customer no_customer_def)
  next
    case True
    then obtain c where c: "has_customer ord c" ..
    show ?thesis
      using assms JsonObject award_cases [of e "event_key (order_id ord)" c "points_of ord" st]
      by (auto simp: process_has_customer [OF c] below_threshold_def already_processed_def
          added_def split: if_splits sum.splits)
  qed
qed (use assms in \<open>auto simp: process_def no_customer_def\<close>)

lemma action_status:
  "status (fst (action e topic p st)) = 200 \<or> status (fst (action e topic p st)) = 400 \<or>
   status (fst (action e topic p st)) = 500"
proof (cases "topic = ''orders/create''")
  case False
  then show ?thesis by (simp add: action_def unsupported_topic_def)
next
  case True
  obtain r s where rs: "process e p st = (r, s)" by (cases "process e p st")
  show ?thesis
  proof (cases r)
    case (Inl x)
    with rs True show ?thesis by (simp add: action_def failed_def)
  next
    case (Inr resp)
    with rs True process_Inr_status [of e p st resp s] show ?thesis by (simp add: action_def)
  qed
qed

subsection \<open>Markers are kept\<close>

lemma award_Inr_marked:
  assumes "award e key cid pts st = (Inr r, st')"
  shows "marked key st'"
  using award_cases [of e key cid pts st] assms
  by (auto simp: marked_def)

lemma award_keeps_marked:
  assumes "marked k st"
  shows "marked k (snd (award e key cid pts st))"
  using award_cases [of e key cid pts st] assms
  by (auto simp: marked_def)

lemma process_keeps_marked:
  assumes "marked k st"
  shows "marked k (snd (process e p st))"
proof (cases p)
  case (JsonObject ord)
  show ?thesis
  proof (cases "\<exists>c. has_customer ord c")
    case False
    then show ?thesis using assms JsonObject by (simp add: process_without_customer)
  next
    case True
    then obtain c where c: "has_customer ord c" ..
    show ?thesis using assms JsonObject award_keeps_marked [OF assms]
      by (simp add: process_has_customer [OF c] split: sum.splits)
  qed
qed (use assms in \<open>simp_all add: process_def\<close>)

lemma action_keeps_marked:
  assumes "marked k st"
  shows "marked k (snd (action e topic p st))"
  using process_keeps_marked [OF assms, of e p] assms
  by (auto simp: action_def split: prod.splits sum.splits)

lemma deliver_keeps_marked:
  "marked k st \<Longrightarrow> marked k (deliver ds st)"
  by (induction ds st rule: deliver.induct) (simp_all add: action_keeps_marked)

subsection \<open>The commit path\<close>

lemma commit_existing:
  assumes "has_customer ord cid" "points_of ord = Fin (of_int n)" "0 < n" "healthy e"
    "\<not> marked (event_key (order_id ord)) st" "entry st cid = Some row"
    "fits_column (points row + n)"
  shows "action e ''orders/create'' (JsonObject ord) st =
           (added (Fin (of_int n)) cid,
            st\<lparr>prisma_migrations :=
                  prisma_migrations st @
                    [\<lparr>name = event_key (order_id ord), applied_steps_count = 1\<rparr>],
                loyaltyPoints :=
                  map (\<lambda>r. if customerId r = cid
                            then r\<lparr>points := points row + n, updatedAt := now e\<rparr> else r)
                    (loyaltyPoints st)\<rparr>)"
proof -
  have z: "\<not> le_zero (points_of ord)" using assms(2,3) by simp
  show ?thesis
    by (simp add: action_unmarked [OF assms(1) z healthyD(1) [OF assms(4)] assms(5)] assms(2)
        award_existing [OF assms(4,6,7)])
qed

lemma commit_new:
  assumes "has_customer ord cid" "points_of ord = Fin (of_int n)" "0 < n" "healthy e"
    "\<not> marked (event_key (order_id ord)) st" "entry st cid = None" "fits_column n"
  shows "action e ''orders/create'' (JsonObject ord) st =
           (added (Fin (of_int n)) cid,
            st\<lparr>prisma_migrations :=
                  prisma_migrations st @
                    [\<lparr>name = event_key (order_id ord), applied_steps_count = 1\<rparr>],
                loyaltyPoints :=
                  loyaltyPoints st @ [\<lparr>customerId = cid, points = n, updatedAt = now e\<rparr>]\<rparr>)"
proof -
  have z: "\<not> le_zero (points_of ord)" using assms(2,3) by simp
  show ?thesis
    by (simp add: action_unmarked [OF assms(1) z healthyD(1) [OF assms(4)] assms(5)] assms(2)
        award_new [OF assms(4,6,7)])
qed

lemma balance_after_commit:
  assumes "has_customer ord cid" "points_of ord = Fin (of_int n)" "0 < n" "healthy e"
    "\<not> marked (event_key (order_id ord)) st" "fits_column (balance st cid + n)"
  shows "fst (action e ''orders/create'' (JsonObject ord) st) = added (Fin (of_int n)) cid \<and>
         balance (snd (action e ''orders/create'' (JsonObject ord) st)) cid = balance st cid + n \<and>
         marked (event_key (order_id ord)) (snd (action e ''orders/create'' (JsonObject ord) st))"
proof (cases "entry st cid")
  case None
  then have f: "fits_column n" using assms(6) by (simp add: balance_def)
  show ?thesis
    using None
    by (simp add: commit_new [OF assms(1-5) None f] balance_def entry_def find_append_new
        marked_def)
next
  case (Some row)
  then have f: "fits_column (points row + n)" using assms(6) by (simp add: balance_def)
  show ?thesis
    using Some
    by (simp add: commit_existing [OF assms(1-5) Some f] balance_def entry_def find_map_update
        marked_def)
qed

subsection \<open>The ledger after an invocation\<close>

lemma ledger_grows_same:
  "loyaltyPoints st' = loyaltyPoints st \<Longrightarrow> ledger_grows st st'"
  by (simp add: ledger_grows_def list_all2_same)

lemma award_invariants:
  assumes "one_entry_each st" "\<not> le_zero pts"
  shows "one_entry_each (snd (award e key cid pts st)) \<and>
         ledger_grows st (snd (award e key cid pts st)) \<and>
         length (loyaltyPoints (snd (award e key cid pts st))) \<le> Suc (length (loyaltyPoints st))"
proof -
  let ?st1 = "st\<lparr>prisma_migrations :=
                   prisma_migrations st @ [\<lparr>name = key, applied_steps_count = 1\<rparr>]\<rparr>"
  from award_cases [of e key cid pts st] show ?thesis
  proof (elim disjE exE conjE)
    fix x assume "award e key cid pts st = (Inl x, st)"
    with assms(1) show ?thesis by (simp add: ledger_grows_same)
  next
    fix x assume "award e key cid pts st = (Inl x, ?st1)"
    with assms(1) show ?thesis by (simp add: ledger_grows_same one_entry_each_def)
  next
    fix row p
    assume c: "entry st cid = Some row" "int32_of (plus_int (points row) pts) = Some p"
      "award e key cid pts st =
         (Inr (added pts cid),
          ?st1\<lparr>loyaltyPoints :=
                  map (\<lambda>r. if customerId r = cid
                            then r\<lparr>points := p, updatedAt := now e\<rparr> else r)
                    (loyaltyPoints st)\<rparr>)"
    have ids: "customerId \<circ> (\<lambda>r. if customerId r = cid
                                 then r\<lparr>points := p, updatedAt := now e\<rparr> else r) =
               customerId"
      by (rule ext) simp
    have up: "points row \<le> p" using assms(2) c(2) by (rule award_raises)
    have each: "points r \<le> p" if "r \<in> set (loyaltyPoints st)" "customerId r = cid" for r
    proof -
      have "r = row"
        using assms(1) c(1) that unfolding one_entry_each_def entry_def by (rule find_unique)
      with up show ?thesis by simp
    qed
    have grows: "ledger_grows st (snd (award e key cid pts st))"
      using each by (simp add: c(3) ledger_grows_def list_all2_map2 list_all2_same)
    have one: "one_entry_each (snd (award e key cid pts st))"
      using assms(1) by (simp add: c(3) one_entry_each_def ids)
    show ?thesis using grows one by (simp add: c(3))
  next
    fix p
    assume d: "entry st cid = None"
      "award e key cid pts st =
         (Inr (added pts cid),
          ?st1\<lparr>loyaltyPoints :=
                  loyaltyPoints st @ [\<lparr>customerId = cid, points = p, updatedAt = now e\<rparr>]\<rparr>)"
    from d(1) have "cid \<notin> set (map customerId (loyaltyPoints st))"
      by (auto simp: entry_def find_None_iff)
    with assms(1) have one: "one_entry_each (snd (award e key cid pts st))"
      by (simp add: d(2) one_entry_each_def)
    have grows: "ledger_grows st (snd (award e key cid pts st))"
      by (simp add: d(2) ledger_grows_def list_all2_same)
    show ?thesis using grows one by (simp add: d(2))
  qed
qed

lemma action_store:
  "snd (action e topic p st) = st \<or>
   (\<exists>key cid pts. \<not> le_zero pts \<and> snd (action e topic p st) = snd (award e key cid pts st))"
proof (cases "topic = ''orders/create''")
  case False
  then show ?thesis by (simp add: action_def)
next
  case True
  have act: "snd (action e topic p st) = snd (process e p st)"
    using True by (simp add: action_def split: prod.splits sum.splits)
  show ?thesis
  proof (cases p)
    case (JsonObject ord)
    show ?thesis
    proof (cases "\<exists>c. has_customer ord c")
      case False
      then show ?thesis using JsonObject act by (simp add: process_without_customer)
    next
      case True
      then obtain c where c: "has_customer ord c" ..
      have pr: "snd (action e topic p st) = snd (process e (JsonObject ord) st)"
        using act JsonObject by simp
      show ?thesis
      proof (cases "le_zero (points_of ord)")
        case True
        then show ?thesis by (simp add: pr process_has_customer [OF c])
      next
        case nz: False
        show ?thesis
        proof (cases "queryRaw e (event_key (order_id ord)) st")
          case (Inl x)
          with nz show ?thesis by (simp add: pr process_has_customer [OF c])
        next
          case (Inr rows)
          show ?thesis
          proof (cases "0 < length rows")
            case True
            with nz Inr show ?thesis by (simp add: pr process_has_customer [OF c])
          next
            case False
            with nz Inr have
              "snd (action e topic p st) =
               snd (award e (event_key (order_id ord)) c (points_of ord) st)"
              by (simp add: pr process_has_customer [OF c])
            with nz show ?thesis by blast
          qed
        qed
      qed
    qed
  qed (use act in \<open>simp_all add: process_def\<close>)
qed

section \<open>The early exits\<close>

text \<open>
  C7: the checks are made in the order topic, customer, threshold, marker, and each one
  ends the invocation with the store untouched. A topic other than \<open>orders/create\<close> is
  rejected with status 400 whatever the body is (it is not even parsed); an order without
  customer is a no-op whatever its subtotal and markers are; an order below the threshold is
  a no-op whether or not its marker exists; only then is the marker looked up.
\<close>

theorem checks_in_order:
  "(topic \<noteq> ''orders/create'' \<longrightarrow>
      action e topic p st = (unsupported_topic topic, st) \<and>
      status (unsupported_topic topic) = 400) \<and>
   ((\<forall>cid. \<not> has_customer ord2 cid) \<longrightarrow>
      action e ''orders/create'' (JsonObject ord2) st = (no_customer, st)) \<and>
   (has_customer ord3 cid3 \<and> le_zero (points_of ord3) \<longrightarrow>
      action e ''orders/create'' (JsonObject ord3) st = (below_threshold, st)) \<and>
   (has_customer ord4 cid4 \<and> \<not> le_zero (points_of ord4) \<and> fault e QueryRaw = None \<and>
    marked (event_key (order_id ord4)) st \<longrightarrow>
      action e ''orders/create'' (JsonObject ord4) st = (already_processed, st))"
proof (intro conjI impI)
  assume "topic \<noteq> ''orders/create''"
  then show "action e topic p st = (unsupported_topic topic, st)"
    by (rule action_other_topic)
next
  show "status (unsupported_topic topic) = 400"
    by (simp add: unsupported_topic_def)
next
  assume "\<forall>cid. \<not> has_customer ord2 cid"
  then show "action e ''orders/create'' (JsonObject ord2) st = (no_customer, st)"
    by (rule action_without_customer)
next
  assume "has_customer ord3 cid3 \<and> le_zero (points_of ord3)"
  then show "action e ''orders/create'' (JsonObject ord3) st = (below_threshold, st)"
    using action_below_threshold by blast
next
  assume "has_customer ord4 cid4 \<and> \<not> le_zero (points_of ord4) \<and> fault e QueryRaw = None \<and>
    marked (event_key (order_id ord4)) st"
  then show "action e ''orders/create'' (JsonObject ord4) st = (already_processed, st)"
    using action_marked by blast
qed

theorem checks_in_order_witness:
  "''orders/updated'' \<noteq> ''orders/create'' \<and>
   action (working 1) ''orders/updated'' NotJson
     \<lparr>prisma_migrations = [\<lparr>name = ''order_9_processed'', applied_steps_count = 1\<rparr>],
      loyaltyPoints = []\<rparr> =
   (unsupported_topic ''orders/updated'',
     \<lparr>prisma_migrations = [\<lparr>name = ''order_9_processed'', applied_steps_count = 1\<rparr>],
      loyaltyPoints = []\<rparr>) \<and>
   (\<forall>cid. \<not> has_customer \<lparr>order_id = Num 9, customer = None, subtotal_price = Some ''9.99''\<rparr> cid) \<and>
   action (working 1) ''orders/create''
     (JsonObject \<lparr>order_id = Num 9, customer = None, subtotal_price = Some ''9.99''\<rparr>)
     \<lparr>prisma_migrations = [\<lparr>name = ''order_9_processed'', applied_steps_count = 1\<rparr>],
      loyaltyPoints = []\<rparr> =
   (no_customer,
     \<lparr>prisma_migrations = [\<lparr>name = ''order_9_processed'', applied_steps_count = 1\<rparr>],
      loyaltyPoints = []\<rparr>) \<and>
   has_customer (order_for (Num 9) ''c1'' ''9.99'') ''c1'' \<and>
   le_zero (points_of (order_for (Num 9) ''c1'' ''9.99'')) \<and>
   action (working 1) ''orders/create'' (JsonObject (order_for (Num 9) ''c1'' ''9.99''))
     \<lparr>prisma_migrations = [\<lparr>name = ''order_9_processed'', applied_steps_count = 1\<rparr>],
      loyaltyPoints = []\<rparr> =
   (below_threshold,
     \<lparr>prisma_migrations = [\<lparr>name = ''order_9_processed'', applied_steps_count = 1\<rparr>],
      loyaltyPoints = []\<rparr>) \<and>
   has_customer (order_for (Num 9) ''c1'' ''25.00'') ''c1'' \<and>
   \<not> le_zero (points_of (order_for (Num 9) ''c1'' ''25.00'')) \<and>
   fault (working 1) QueryRaw = None \<and>
   marked (event_key (order_id (order_for (Num 9) ''c1'' ''25.00'')))
     \<lparr>prisma_migrations = [\<lparr>name = ''order_9_processed'', applied_steps_count = 1\<rparr>],
      loyaltyPoints = []\<rparr> \<and>
   action (working 1) ''orders/create'' (JsonObject (order_for (Num 9) ''c1'' ''25.00''))
     \<lparr>prisma_migrations = [\<lparr>name = ''order_9_processed'', applied_steps_count = 1\<rparr>],
      loyaltyPoints = []\<rparr> =
   (already_processed,
     \<lparr>prisma_migrations = [\<lparr>name = ''order_9_processed'', applied_steps_count = 1\<rparr>],
      loyaltyPoints = []\<rparr>)"
proof -
  have h1: "''orders/updated'' \<noteq> ''orders/create''" by simp
  have h2: "\<forall>cid. \<not> has_customer \<lparr>order_id = Num 9, customer = None, subtotal_price = Some ''9.99''\<rparr> cid"
    by (simp add: has_customer_def)
  have h3: "has_customer (order_for (Num 9) ''c1'' ''9.99'') ''c1'' \<and>
            le_zero (points_of (order_for (Num 9) ''c1'' ''9.99''))"
    by (simp add: has_customer_def run_defs parse_defs sample_defs)
  have h4: "has_customer (order_for (Num 9) ''c1'' ''25.00'') ''c1'' \<and>
            \<not> le_zero (points_of (order_for (Num 9) ''c1'' ''25.00'')) \<and>
            fault (working 1) QueryRaw = None \<and>
            marked (event_key (order_id (order_for (Num 9) ''c1'' ''25.00'')))
              \<lparr>prisma_migrations = [\<lparr>name = ''order_9_processed'', applied_steps_count = 1\<rparr>],
               loyaltyPoints = []\<rparr>"
    by (simp add: has_customer_def marked_def run_defs parse_defs sample_defs)
  show ?thesis
    using checks_in_order [where topic = "''orders/updated''" and e = "working 1" and p = NotJson
        and st = "\<lparr>prisma_migrations = [\<lparr>name = ''order_9_processed'', applied_steps_count = 1\<rparr>],
                   loyaltyPoints = []\<rparr>"
        and ?ord2.0 = "\<lparr>order_id = Num 9, customer = None, subtotal_price = Some ''9.99''\<rparr>"
        and ?ord3.0 = "order_for (Num 9) ''c1'' ''9.99''" and ?cid3.0 = "''c1''"
        and ?ord4.0 = "order_for (Num 9) ''c1'' ''25.00''" and ?cid4.0 = "''c1''"]
      h1 h2 h3 h4
    by blast
qed

text \<open>
  C6: an order-created event whose order names no customer (\<open>order.customer\<close> or its
  \<open>id\<close> is absent, \<open>null\<close> or empty) is answered ``No customer associated with this
  order'' with status 200, and the store is returned as it was: no marker row, no ledger
  row is written.
\<close>

theorem no_customer_no_writes:
  assumes "\<forall>cid. \<not> has_customer ord cid"
  shows "action e ''orders/create'' (JsonObject ord) st = (no_customer, st) \<and>
         status no_customer = 200"
  using assms by (simp add: action_without_customer no_customer_def)

theorem no_customer_no_writes_witness:
  "(\<forall>cid. \<not> has_customer \<lparr>order_id = Num 7, customer = None, subtotal_price = Some ''80.00''\<rparr> cid) \<and>
   action (working 3) ''orders/create''
     (JsonObject \<lparr>order_id = Num 7, customer = None, subtotal_price = Some ''80.00''\<rparr>)
     empty_store = (no_customer, empty_store)"
proof -
  have h: "\<forall>cid. \<not> has_customer \<lparr>order_id = Num 7, customer = None, subtotal_price = Some ''80.00''\<rparr> cid"
    by (simp add: has_customer_def)
  show ?thesis
    using no_customer_no_writes [OF h, of "working 3" empty_store] h by simp
qed

section \<open>The threshold\<close>

text \<open>
  C4: for an order with a customer whose subtotal is a plain amount (digits, then possibly
  a point and up to two digits, below \<open>10\<^sup>1\<^sup>3\<close>), the points are the floor of a
  tenth of the subtotal. When that is \<open>0\<close> the invocation is a no-op (the ``No points
  earned'' response, the store unchanged, so no marker and no ledger write); when it is
  positive, no marker exists, the store calls go through and the column takes the new
  balance, the award is reported, the marker is recorded and the balance of the customer
  has grown by the points. In particular the subtotal \<open>9.99\<close> gives \<open>0\<close> points and the
  no-op, and \<open>10.00\<close> gives \<open>1\<close> point, which is awarded.
\<close>

theorem points_are_floor_of_tenth:
  assumes "has_customer ord cid" "subtotal_price ord = Some s" "is_amount s"
  shows "points_of ord = Fin (of_int \<lfloor>amount s / 10\<rfloor>) \<and>
         (\<lfloor>amount s / 10\<rfloor> \<le> 0 \<longrightarrow>
            action e ''orders/create'' (JsonObject ord) st = (below_threshold, st)) \<and>
         (0 < \<lfloor>amount s / 10\<rfloor> \<and> healthy e \<and> \<not> marked (event_key (order_id ord)) st \<and>
          fits_column (balance st cid + \<lfloor>amount s / 10\<rfloor>) \<longrightarrow>
            fst (action e ''orders/create'' (JsonObject ord) st) =
              added (Fin (of_int \<lfloor>amount s / 10\<rfloor>)) cid \<and>
            balance (snd (action e ''orders/create'' (JsonObject ord) st)) cid =
              balance st cid + \<lfloor>amount s / 10\<rfloor> \<and>
            marked (event_key (order_id ord))
              (snd (action e ''orders/create'' (JsonObject ord) st))) \<and>
         (s = ''9.99'' \<longrightarrow>
            points_of ord = Fin 0 \<and>
            action e ''orders/create'' (JsonObject ord) st = (below_threshold, st)) \<and>
         (s = ''10.00'' \<longrightarrow> points_of ord = Fin 1) \<and>
         (s = ''10.00'' \<and> healthy e \<and> \<not> marked (event_key (order_id ord)) st \<and>
          fits_column (balance st cid + 1) \<longrightarrow>
            fst (action e ''orders/create'' (JsonObject ord) st) = added (Fin 1) cid \<and>
            balance (snd (action e ''orders/create'' (JsonObject ord) st)) cid =
              balance st cid + 1 \<and>
            marked (event_key (order_id ord))
              (snd (action e ''orders/create'' (JsonObject ord) st)))"
proof -
  have pts: "points_of ord = Fin (of_int \<lfloor>amount s / 10\<rfloor>)"
    using assms(2,3) by (rule points_of_amount)
  have low: "action e ''orders/create'' (JsonObject ord) st = (below_threshold, st)"
    if "\<lfloor>amount s / 10\<rfloor> \<le> 0"
  proof -
    have "le_zero (points_of ord)" using that by (simp add: pts)
    with assms(1) show ?thesis by (rule action_below_threshold)
  qed
  have high:
    "fst (action e ''orders/create'' (JsonObject ord) st) =
       added (Fin (of_int \<lfloor>amount s / 10\<rfloor>)) cid \<and>
     balance (snd (action e ''orders/create'' (JsonObject ord) st)) cid =
       balance st cid + \<lfloor>amount s / 10\<rfloor> \<and>
     marked (event_key (order_id ord)) (snd (action e ''orders/create'' (JsonObject ord) st))"
    if "0 < \<lfloor>amount s / 10\<rfloor>" "healthy e" "\<not> marked (event_key (order_id ord)) st"
      "fits_column (balance st cid + \<lfloor>amount s / 10\<rfloor>)"
    using balance_after_commit [OF assms(1) pts that] .
  have nine: "\<lfloor>amount s / 10\<rfloor> = 0" if "s = ''9.99''"
    using that
    by (simp add: amount_def is_digit_def decimal_value_def digit_value_def floor_rat_numeral)
  have ten: "\<lfloor>amount s / 10\<rfloor> = 1" if "s = ''10.00''"
    using that by (simp add: amount_def is_digit_def decimal_value_def digit_value_def)
  show ?thesis
  proof (intro conjI impI)
    show "points_of ord = Fin (of_int \<lfloor>amount s / 10\<rfloor>)" by (rule pts)
  next
    assume "\<lfloor>amount s / 10\<rfloor> \<le> 0"
    then show "action e ''orders/create'' (JsonObject ord) st = (below_threshold, st)"
      by (rule low)
  next
    assume a: "0 < \<lfloor>amount s / 10\<rfloor> \<and> healthy e \<and> \<not> marked (event_key (order_id ord)) st \<and>
      fits_column (balance st cid + \<lfloor>amount s / 10\<rfloor>)"
    then have h: "fst (action e ''orders/create'' (JsonObject ord) st) =
       added (Fin (of_int \<lfloor>amount s / 10\<rfloor>)) cid \<and>
     balance (snd (action e ''orders/create'' (JsonObject ord) st)) cid =
       balance st cid + \<lfloor>amount s / 10\<rfloor> \<and>
     marked (event_key (order_id ord)) (snd (action e ''orders/create'' (JsonObject ord) st))"
      using high by blast
    from h show "fst (action e ''orders/create'' (JsonObject ord) st) =
       added (Fin (of_int \<lfloor>amount s / 10\<rfloor>)) cid" by blast
    from h show "balance (snd (action e ''orders/create'' (JsonObject ord) st)) cid =
       balance st cid + \<lfloor>amount s / 10\<rfloor>" by blast
    from h show "marked (event_key (order_id ord))
       (snd (action e ''orders/create'' (JsonObject ord) st))" by blast
  next
    assume "s = ''9.99''"
    then show "points_of ord = Fin 0" using pts nine by simp
  next
    assume "s = ''9.99''"
    then have "\<lfloor>amount s / 10\<rfloor> \<le> 0" using nine by simp
    then show "action e ''orders/create'' (JsonObject ord) st = (below_threshold, st)"
      by (rule low)
  next
    assume "s = ''10.00''"
    then show "points_of ord = Fin 1" using pts ten by simp
  next
    assume a: "s = ''10.00'' \<and> healthy e \<and> \<not> marked (event_key (order_id ord)) st \<and>
      fits_column (balance st cid + 1)"
    then have one: "\<lfloor>amount s / 10\<rfloor> = 1" using ten by blast
    have pos: "0 < \<lfloor>amount s / 10\<rfloor>" unfolding one by simp
    have fit: "fits_column (balance st cid + \<lfloor>amount s / 10\<rfloor>)"
      unfolding one using a by blast
    from a have "healthy e" "\<not> marked (event_key (order_id ord)) st" by blast+
    from high [OF pos this fit]
    have h: "fst (action e ''orders/create'' (JsonObject ord) st) =
       added (Fin 1) cid \<and>
     balance (snd (action e ''orders/create'' (JsonObject ord) st)) cid = balance st cid + 1 \<and>
     marked (event_key (order_id ord)) (snd (action e ''orders/create'' (JsonObject ord) st))"
      unfolding one by simp
    from h show "fst (action e ''orders/create'' (JsonObject ord) st) = added (Fin 1) cid"
      by blast
    from h show "balance (snd (action e ''orders/create'' (JsonObject ord) st)) cid =
       balance st cid + 1" by blast
    from h show "marked (event_key (order_id ord))
       (snd (action e ''orders/create'' (JsonObject ord) st))" by blast
  qed
qed

theorem points_are_floor_of_tenth_witness:
  "has_customer (order_for (Num 1) ''c1'' ''9.99'') ''c1'' \<and>
   subtotal_price (order_for (Num 1) ''c1'' ''9.99'') = Some ''9.99'' \<and>
   is_amount ''9.99'' \<and> \<lfloor>amount ''9.99'' / 10\<rfloor> \<le> 0 \<and>
   points_of (order_for (Num 1) ''c1'' ''9.99'') = Fin 0 \<and>
   action (working 4) ''orders/create'' (JsonObject (order_for (Num 1) ''c1'' ''9.99''))
     empty_store = (below_threshold, empty_store) \<and>
   has_customer (order_for (Num 2) ''c1'' ''10.00'') ''c1'' \<and>
   subtotal_price (order_for (Num 2) ''c1'' ''10.00'') = Some ''10.00'' \<and>
   is_amount ''10.00'' \<and> 0 < \<lfloor>amount ''10.00'' / 10\<rfloor> \<and>
   healthy (working 4) \<and>
   \<not> marked (event_key (order_id (order_for (Num 2) ''c1'' ''10.00''))) empty_store \<and>
   fits_column (balance empty_store ''c1'' + 1) \<and>
   points_of (order_for (Num 2) ''c1'' ''10.00'') = Fin 1 \<and>
   fst (action (working 4) ''orders/create'' (JsonObject (order_for (Num 2) ''c1'' ''10.00''))
     empty_store) = added (Fin 1) ''c1'' \<and>
   balance (snd (action (working 4) ''orders/create''
     (JsonObject (order_for (Num 2) ''c1'' ''10.00'')) empty_store)) ''c1'' = 1"
proof -
  have a1: "has_customer (order_for (Num 1) ''c1'' ''9.99'') ''c1''"
    by (simp add: has_customer_def sample_defs)
  have a2: "subtotal_price (order_for (Num 1) ''c1'' ''9.99'') = Some ''9.99''"
    by (simp add: sample_defs)
  have a3: "is_amount ''9.99''"
    by (simp add: is_amount_def is_digit_def)
  have a4: "\<lfloor>amount ''9.99'' / 10\<rfloor> = 0"
    by (simp add: amount_def is_digit_def decimal_value_def digit_value_def floor_rat_numeral)
  have b1: "has_customer (order_for (Num 2) ''c1'' ''10.00'') ''c1''"
    by (simp add: has_customer_def sample_defs)
  have b2: "subtotal_price (order_for (Num 2) ''c1'' ''10.00'') = Some ''10.00''"
    by (simp add: sample_defs)
  have b3: "is_amount ''10.00''"
    by (simp add: is_amount_def is_digit_def)
  have b4: "\<lfloor>amount ''10.00'' / 10\<rfloor> = 1"
    by (simp add: amount_def is_digit_def decimal_value_def digit_value_def)
  have b5: "healthy (working 4)"
    by (simp add: healthy_def sample_defs)
  have b6: "\<not> marked (event_key (order_id (order_for (Num 2) ''c1'' ''10.00''))) empty_store"
    by (simp add: marked_def sample_defs)
  have b7: "balance empty_store ''c1'' = 0"
    by (simp add: balance_def entry_def sample_defs)
  have b8: "fits_column (balance empty_store ''c1'' + 1)"
    by (simp add: b7 fits_column_def)
  show ?thesis
    using points_are_floor_of_tenth [OF a1 a2 a3, where e = "working 4" and st = empty_store]
      points_are_floor_of_tenth [OF b1 b2 b3, where e = "working 4" and st = empty_store]
      a1 a2 a3 a4 b1 b2 b3 b4 b5 b6 b7 b8
    by simp
qed

text \<open>
  C2, at the input where the code departs from it: the subtotal \<open>abc\<close> parses to
  \<open>NaN\<close>, the points are \<open>NaN\<close>, and \<open>NaN <= 0\<close> is false, so the order is not
  stopped at the threshold. The marker of the order is written, the ledger write is then
  refused (\<open>NaN\<close> is no value of the integer column), and the answer is status 500; the
  marker stays.
\<close>

theorem non_numeric_subtotal_marks_order:
  "subtotal_of (order_for (Num 1002) ''c1'' ''abc'') = NaN \<and>
   action (working 1) ''orders/create'' (JsonObject (order_for (Num 1002) ''c1'' ''abc''))
     empty_store =
   (\<lparr>status = 500, body = ''Error processing webhook: InvalidValue''\<rparr>,
    \<lparr>prisma_migrations = [\<lparr>name = ''order_1002_processed'', applied_steps_count = 1\<rparr>],
     loyaltyPoints = []\<rparr>)"
  by (simp add: run_defs parse_defs sample_defs)

section \<open>Redelivery\<close>

text \<open>
  C1: once an invocation has awarded the points of an order (which records the marker of
  the order's identifier), every later invocation with the same payload, whatever was
  delivered in between, finds the marker, answers ``Order already processed'' with status
  200 and leaves the store (marker table and every balance) as it found it, provided its
  marker lookup itself succeeds. So the points of an order are awarded once at most when
  the order is redelivered.
\<close>

theorem redelivery_is_noop:
  assumes "action e1 topic p st = (added pts cid, st1)"
    and "fault e2 QueryRaw = None"
  shows "action e2 topic p (deliver ds st1) = (already_processed, deliver ds st1)"
proof -
  from action_added [OF assms(1)] have t: "topic = ''orders/create''"
    and pr: "process e1 p st = (Inr (added pts cid), st1)" by simp_all
  from process_added [OF pr] obtain ord c where
    p: "p = JsonObject ord" and c: "has_customer ord c" and z: "\<not> le_zero (points_of ord)"
    and aw: "award e1 (event_key (order_id ord)) c (points_of ord) st = (Inr (added pts cid), st1)"
    by blast
  have "marked (event_key (order_id ord)) (deliver ds st1)"
    using award_Inr_marked [OF aw] by (rule deliver_keeps_marked)
  from action_marked [OF c z assms(2) this] show ?thesis using t p by simp
qed

theorem redelivery_is_noop_witness:
  "action (working 1) ''orders/create'' (JsonObject (order_for (Num 1001) ''c1'' ''25.00''))
     empty_store =
   (added (Fin 2) ''c1'',
    \<lparr>prisma_migrations = [\<lparr>name = ''order_1001_processed'', applied_steps_count = 1\<rparr>],
     loyaltyPoints = [\<lparr>customerId = ''c1'', points = 2, updatedAt = 1\<rparr>]\<rparr>) \<and>
   fault (working 2) QueryRaw = None \<and>
   action (working 2) ''orders/create'' (JsonObject (order_for (Num 1001) ''c1'' ''25.00''))
     \<lparr>prisma_migrations = [\<lparr>name = ''order_1001_processed'', applied_steps_count = 1\<rparr>],
      loyaltyPoints = [\<lparr>customerId = ''c1'', points = 2, updatedAt = 1\<rparr>]\<rparr> =
   (already_processed,
    \<lparr>prisma_migrations = [\<lparr>name = ''order_1001_processed'', applied_steps_count = 1\<rparr>],
     loyaltyPoints = [\<lparr>customerId = ''c1'', points = 2, updatedAt = 1\<rparr>]\<rparr>)"
proof -
  have first:
    "action (working 1) ''orders/create''
       (JsonObject (order_for (Num 1001) ''c1'' ''25.00'')) empty_store =
     (added (Fin 2) ''c1'',
      \<lparr>prisma_migrations = [\<lparr>name = ''order_1001_processed'', applied_steps_count = 1\<rparr>],
       loyaltyPoints = [\<lparr>customerId = ''c1'', points = 2, updatedAt = 1\<rparr>]\<rparr>)"
    by (simp add: run_defs parse_defs sample_defs)
  have ok: "fault (working 2) QueryRaw = None"
    by (simp add: sample_defs)
  show ?thesis
    using redelivery_is_noop [OF first ok, of "[]"] first ok by simp
qed

text \<open>
  C10: the marker key is \<open>order_\<close>, the identifier as a template literal prints it, and
  \<open>_processed\<close>; for an order without \<open>id\<close> that is the one string
  \<open>order_undefined_processed\<close>. So once an order without identifier has been awarded,
  every later order without identifier that passes the customer and threshold checks is
  answered ``Order already processed'' and the store is left unchanged: it gets no award.
\<close>

theorem orders_without_id_share_one_marker:
  assumes "order_id ord1 = Undefined" "order_id ord2 = Undefined"
    and "action e1 topic (JsonObject ord1) st = (added pts cid1, st1)"
    and "has_customer ord2 cid2" "\<not> le_zero (points_of ord2)" "fault e2 QueryRaw = None"
  shows "event_key (order_id ord2) = ''order_undefined_processed'' \<and>
         action e2 ''orders/create'' (JsonObject ord2) (deliver ds st1) =
           (already_processed, deliver ds st1)"
proof -
  from action_added [OF assms(3)]
  have pr: "process e1 (JsonObject ord1) st = (Inr (added pts cid1), st1)" by simp
  from process_added [OF pr] obtain c where
    "award e1 (event_key (order_id ord1)) c (points_of ord1) st = (Inr (added pts cid1), st1)"
    by auto
  then have "marked (event_key (order_id ord1)) st1" by (rule award_Inr_marked)
  then have "marked (event_key (order_id ord2)) (deliver ds st1)"
    using assms(1,2) by (simp add: deliver_keeps_marked)
  from action_marked [OF assms(4,5,6) this] assms(2) show ?thesis
    by (simp add: event_key_def)
qed

theorem orders_without_id_share_one_marker_witness:
  "order_id (order_for Undefined ''c1'' ''25.00'') = Undefined \<and>
   order_id (order_for Undefined ''c2'' ''40.00'') = Undefined \<and>
   action (working 1) ''orders/create'' (JsonObject (order_for Undefined ''c1'' ''25.00''))
     empty_store =
   (added (Fin 2) ''c1'',
    \<lparr>prisma_migrations = [\<lparr>name = ''order_undefined_processed'', applied_steps_count = 1\<rparr>],
     loyaltyPoints = [\<lparr>customerId = ''c1'', points = 2, updatedAt = 1\<rparr>]\<rparr>) \<and>
   has_customer (order_for Undefined ''c2'' ''40.00'') ''c2'' \<and>
   \<not> le_zero (points_of (order_for Undefined ''c2'' ''40.00'')) \<and>
   fault (working 2) QueryRaw = None \<and>
   action (working 2) ''orders/create'' (JsonObject (order_for Undefined ''c2'' ''40.00''))
     \<lparr>prisma_migrations = [\<lparr>name = ''order_undefined_processed'', applied_steps_count = 1\<rparr>],
      loyaltyPoints = [\<lparr>customerId = ''c1'', points = 2, updatedAt = 1\<rparr>]\<rparr> =
   (already_processed,
    \<lparr>prisma_migrations = [\<lparr>name = ''order_undefined_processed'', applied_steps_count = 1\<rparr>],
     loyaltyPoints = [\<lparr>customerId = ''c1'', points = 2, updatedAt = 1\<rparr>]\<rparr>)"
proof -
  have h1: "order_id (order_for Undefined ''c1'' ''25.00'') = Undefined"
    by (simp add: sample_defs)
  have h2: "order_id (order_for Undefined ''c2'' ''40.00'') = Undefined"
    by (simp add: sample_defs)
  have h3: "action (working 1) ''orders/create''
      (JsonObject (order_for Undefined ''c1'' ''25.00'')) empty_store =
    (added (Fin 2) ''c1'',
     \<lparr>prisma_migrations = [\<lparr>name = ''order_undefined_processed'', applied_steps_count = 1\<rparr>],
      loyaltyPoints = [\<lparr>customerId = ''c1'', points = 2, updatedAt = 1\<rparr>]\<rparr>)"
    by (simp add: run_defs parse_defs sample_defs)
  have h4: "has_customer (order_for Undefined ''c2'' ''40.00'') ''c2''"
    by (simp add: has_customer_def sample_defs)
  have h5: "\<not> le_zero (points_of (order_for Undefined ''c2'' ''40.00''))"
    by (simp add: points_of_def subtotal_of_def parse_defs sample_defs)
  have h6: "fault (working 2) QueryRaw = None"
    by (simp add: sample_defs)
  show ?thesis
    using orders_without_id_share_one_marker [OF h1 h2 h3 h4 h5 h6, of "[]"] h1 h2 h3 h4 h5 h6
    by simp
qed

section \<open>The commit path and the ledger\<close>

text \<open>
  C5: on the commit path (topic \<open>orders/create\<close>, customer present, \<open>n > 0\<close> points,
  no marker found) with a store whose calls go through and whose integer column takes the
  new balance: if the customer has an entry, the award is reported and the entry afterwards
  is the old one with \<open>points\<close> raised by \<open>n\<close> and \<open>updatedAt\<close> set to the current
  time; if the customer has none, the award is reported and the entry afterwards is a new
  one with \<open>points = n\<close>.
\<close>

theorem upsert_adds_points:
  assumes "has_customer ord cid" "points_of ord = Fin (of_int n)" "0 < n" "healthy e"
    "\<not> marked (event_key (order_id ord)) st"
  shows "(entry st cid = Some row \<and> fits_column (points row + n) \<longrightarrow>
            fst (action e ''orders/create'' (JsonObject ord) st) = added (Fin (of_int n)) cid \<and>
            entry (snd (action e ''orders/create'' (JsonObject ord) st)) cid =
              Some (row\<lparr>points := points row + n, updatedAt := now e\<rparr>)) \<and>
         (entry st cid = None \<and> fits_column n \<longrightarrow>
            fst (action e ''orders/create'' (JsonObject ord) st) = added (Fin (of_int n)) cid \<and>
            entry (snd (action e ''orders/create'' (JsonObject ord) st)) cid =
              Some \<lparr>customerId = cid, points = n, updatedAt = now e\<rparr>)"
proof (intro conjI impI)
  assume a: "entry st cid = Some row \<and> fits_column (points row + n)"
  then have eq: "action e ''orders/create'' (JsonObject ord) st =
           (added (Fin (of_int n)) cid,
            st\<lparr>prisma_migrations :=
                  prisma_migrations st @
                    [\<lparr>name = event_key (order_id ord), applied_steps_count = 1\<rparr>],
                loyaltyPoints :=
                  map (\<lambda>r. if customerId r = cid
                            then r\<lparr>points := points row + n, updatedAt := now e\<rparr> else r)
                    (loyaltyPoints st)\<rparr>)"
    using commit_existing [OF assms] by blast
  show "fst (action e ''orders/create'' (JsonObject ord) st) = added (Fin (of_int n)) cid"
    by (simp add: eq)
  show "entry (snd (action e ''orders/create'' (JsonObject ord) st)) cid =
              Some (row\<lparr>points := points row + n, updatedAt := now e\<rparr>)"
    using a by (simp add: eq entry_def find_map_update)
next
  assume a: "entry st cid = None \<and> fits_column n"
  then have eq: "action e ''orders/create'' (JsonObject ord) st =
           (added (Fin (of_int n)) cid,
            st\<lparr>prisma_migrations :=
                  prisma_migrations st @
                    [\<lparr>name = event_key (order_id ord), applied_steps_count = 1\<rparr>],
                loyaltyPoints :=
                  loyaltyPoints st @ [\<lparr>customerId = cid, points = n, updatedAt = now e\<rparr>]\<rparr>)"
    using commit_new [OF assms] by blast
  show "fst (action e ''orders/create'' (JsonObject ord) st) = added (Fin (of_int n)) cid"
    by (simp add: eq)
  show "entry (snd (action e ''orders/create'' (JsonObject ord) st)) cid =
              Some \<lparr>customerId = cid, points = n, updatedAt = now e\<rparr>"
    using a by (simp add: eq entry_def find_append_new)
qed

theorem upsert_adds_points_witness:
  "has_customer (order_for (Num 3) ''c1'' ''30.00'') ''c1'' \<and>
   points_of (order_for (Num 3) ''c1'' ''30.00'') = Fin 3 \<and> healthy (working 9) \<and>
   entry \<lparr>prisma_migrations = [],
          loyaltyPoints = [\<lparr>customerId = ''c1'', points = 5, updatedAt = 1\<rparr>]\<rparr> ''c1'' =
     Some \<lparr>customerId = ''c1'', points = 5, updatedAt = 1\<rparr> \<and>
   entry (snd (action (working 9) ''orders/create''
                 (JsonObject (order_for (Num 3) ''c1'' ''30.00''))
                 \<lparr>prisma_migrations = [],
                  loyaltyPoints = [\<lparr>customerId = ''c1'', points = 5, updatedAt = 1\<rparr>]\<rparr>))
     ''c1'' = Some \<lparr>customerId = ''c1'', points = 8, updatedAt = 9\<rparr> \<and>
   has_customer (order_for (Num 4) ''c2'' ''50.00'') ''c2'' \<and>
   points_of (order_for (Num 4) ''c2'' ''50.00'') = Fin 5 \<and>
   entry empty_store ''c2'' = None \<and>
   fst (action (working 9) ''orders/create''
          (JsonObject (order_for (Num 4) ''c2'' ''50.00'')) empty_store) =
     added (Fin 5) ''c2'' \<and>
   entry (snd (action (working 9) ''orders/create''
                 (JsonObject (order_for (Num 4) ''c2'' ''50.00'')) empty_store)) ''c2'' =
     Some \<lparr>customerId = ''c2'', points = 5, updatedAt = 9\<rparr>"
proof -
  let ?st = "\<lparr>prisma_migrations = [],
              loyaltyPoints = [\<lparr>customerId = ''c1'', points = 5, updatedAt = 1\<rparr>]\<rparr>"
  let ?row = "\<lparr>customerId = ''c1'', points = 5, updatedAt = 1\<rparr>"
  have a1: "has_customer (order_for (Num 3) ''c1'' ''30.00'') ''c1''"
    by (simp add: has_customer_def sample_defs)
  have a2: "points_of (order_for (Num 3) ''c1'' ''30.00'') = Fin (of_int 3)"
    by (simp add: points_of_def subtotal_of_def parse_defs sample_defs)
  have a3: "(0::int) < 3" by simp
  have h: "healthy (working 9)" by (simp add: healthy_def sample_defs)
  have a4: "\<not> marked (event_key (order_id (order_for (Num 3) ''c1'' ''30.00''))) ?st"
    by (simp add: marked_def)
  have a5: "entry ?st ''c1'' = Some ?row \<and> fits_column (points ?row + 3)"
    by (simp add: entry_def fits_column_def)
  have b1: "has_customer (order_for (Num 4) ''c2'' ''50.00'') ''c2''"
    by (simp add: has_customer_def sample_defs)
  have b2: "points_of (order_for (Num 4) ''c2'' ''50.00'') = Fin (of_int 5)"
    by (simp add: points_of_def subtotal_of_def parse_defs sample_defs)
  have b3: "(0::int) < 5" by simp
  have b4: "\<not> marked (event_key (order_id (order_for (Num 4) ''c2'' ''50.00''))) empty_store"
    by (simp add: marked_def sample_defs)
  have b5: "entry empty_store ''c2'' = None \<and> fits_column 5"
    by (simp add: entry_def fits_column_def sample_defs)
  show ?thesis
    using upsert_adds_points [OF a1 a2 a3 h a4, where row = ?row]
      upsert_adds_points [OF b1 b2 b3 h b4] a1 a2 a5 b1 b2 b5 h
    by (simp add: working_def)
qed

text \<open>
  C8: every invocation, in any environment and on any input, preserves the invariant that
  a customer has one ledger entry at most; it deletes no entry and moves none (each entry
  of the old ledger is still at its place, for the same customer), it leaves each balance
  equal or larger, and it adds one entry at most (the entry created on a first award).
\<close>

theorem ledger_invariant_preserved:
  assumes "one_entry_each st"
  shows "one_entry_each (snd (action e topic p st)) \<and>
         ledger_grows st (snd (action e topic p st)) \<and>
         length (loyaltyPoints (snd (action e topic p st))) \<le> Suc (length (loyaltyPoints st))"
proof -
  consider "snd (action e topic p st) = st"
    | key cid pts where "\<not> le_zero pts"
        "snd (action e topic p st) = snd (award e key cid pts st)"
    using action_store [of e topic p st] by blast
  then show ?thesis
  proof cases
    case 1
    with assms show ?thesis by (simp add: ledger_grows_same)
  next
    case 2
    from award_invariants [OF assms 2(1), of e key cid] show ?thesis
      by (simp add: 2(2))
  qed
qed

theorem ledger_invariant_preserved_witness:
  "one_entry_each
     \<lparr>prisma_migrations = [],
      loyaltyPoints = [\<lparr>customerId = ''c1'', points = 5, updatedAt = 1\<rparr>,
                       \<lparr>customerId = ''c2'', points = 7, updatedAt = 2\<rparr>]\<rparr> \<and>
   snd (action (working 9) ''orders/create'' (JsonObject (order_for (Num 3) ''c1'' ''30.00''))
     \<lparr>prisma_migrations = [],
      loyaltyPoints = [\<lparr>customerId = ''c1'', points = 5, updatedAt = 1\<rparr>,
                       \<lparr>customerId = ''c2'', points = 7, updatedAt = 2\<rparr>]\<rparr>) =
     \<lparr>prisma_migrations = [\<lparr>name = ''order_3_processed'', applied_steps_count = 1\<rparr>],
      loyaltyPoints = [\<lparr>customerId = ''c1'', points = 8, updatedAt = 9\<rparr>,
                       \<lparr>customerId = ''c2'', points = 7, updatedAt = 2\<rparr>]\<rparr> \<and>
   one_entry_each
     \<lparr>prisma_migrations = [\<lparr>name = ''order_3_processed'', applied_steps_count = 1\<rparr>],
      loyaltyPoints = [\<lparr>customerId = ''c1'', points = 8, updatedAt = 9\<rparr>,
                       \<lparr>customerId = ''c2'', points = 7, updatedAt = 2\<rparr>]\<rparr> \<and>
   ledger_grows
     \<lparr>prisma_migrations = [],
      loyaltyPoints = [\<lparr>customerId = ''c1'', points = 5, updatedAt = 1\<rparr>,
                       \<lparr>customerId = ''c2'', points = 7, updatedAt = 2\<rparr>]\<rparr>
     \<lparr>prisma_migrations = [\<lparr>name = ''order_3_processed'', applied_steps_count = 1\<rparr>],
      loyaltyPoints = [\<lparr>customerId = ''c1'', points = 8, updatedAt = 9\<rparr>,
                       \<lparr>customerId = ''c2'', points = 7, updatedAt = 2\<rparr>]\<rparr>"
proof -
  let ?st = "\<lparr>prisma_migrations = [],
      loyaltyPoints = [\<lparr>customerId = ''c1'', points = 5, updatedAt = 1\<rparr>,
                       \<lparr>customerId = ''c2'', points = 7, updatedAt = 2\<rparr>]\<rparr>"
  have h: "one_entry_each ?st" by (simp add: one_entry_each_def)
  have run: "snd (action (working 9) ''orders/create''
                (JsonObject (order_for (Num 3) ''c1'' ''30.00'')) ?st) =
     \<lparr>prisma_migrations = [\<lparr>name = ''order_3_processed'', applied_steps_count = 1\<rparr>],
      loyaltyPoints = [\<lparr>customerId = ''c1'', points = 8, updatedAt = 9\<rparr>,
                       \<lparr>customerId = ''c2'', points = 7, updatedAt = 2\<rparr>]\<rparr>"
    by (simp add: run_defs parse_defs sample_defs)
  show ?thesis
    using ledger_invariant_preserved [OF h, of "working 9" "''orders/create''"
        "JsonObject (order_for (Num 3) ''c1'' ''30.00'')"] h run
    by simp
qed

section \<open>Failures\<close>

text \<open>
  C3, as claimed: an invocation whose marker insert fails on a duplicate key returns the
  outcome of ``already processed''. It does not: the \<open>catch\<close> block answers every
  exception alike, with status 500.
\<close>

theorem duplicate_marker_not_already_processed:
  "action (failing 5 ExecuteRaw DuplicateKey) ''orders/create''
     (JsonObject (order_for (Num 1001) ''c1'' ''25.00'')) empty_store =
   (\<lparr>status = 500, body = ''Error processing webhook: DuplicateKey''\<rparr>, empty_store) \<and>
   fst (action (failing 5 ExecuteRaw DuplicateKey) ''orders/create''
     (JsonObject (order_for (Num 1001) ''c1'' ''25.00'')) empty_store) \<noteq> already_processed"
  by (simp add: run_defs parse_defs sample_defs)

text \<open>
  C3, amended: an invocation that reaches the marker insert (topic, customer and threshold
  passed, the lookup found no marker) and whose insert is rejected on a duplicate key
  answers with status 500 and the message of the error, and leaves the store unchanged: in
  particular it does not go on to the ledger.
\<close>

theorem failed_marker_insert_is_server_error:
  assumes "has_customer ord cid" "\<not> le_zero (points_of ord)" "fault e QueryRaw = None"
    "\<not> marked (event_key (order_id ord)) st" "fault e ExecuteRaw = Some DuplicateKey"
  shows "action e ''orders/create'' (JsonObject ord) st = (failed e DuplicateKey, st) \<and>
         status (failed e DuplicateKey) = 500"
  by (simp add: action_unmarked [OF assms(1-4)] award_insert_fault [OF assms(5)] failed_status)

theorem failed_marker_insert_is_server_error_witness:
  "has_customer (order_for (Num 1001) ''c1'' ''25.00'') ''c1'' \<and>
   \<not> le_zero (points_of (order_for (Num 1001) ''c1'' ''25.00'')) \<and>
   fault (failing 5 ExecuteRaw DuplicateKey) QueryRaw = None \<and>
   \<not> marked (event_key (order_id (order_for (Num 1001) ''c1'' ''25.00''))) empty_store \<and>
   fault (failing 5 ExecuteRaw DuplicateKey) ExecuteRaw = Some DuplicateKey \<and>
   action (failing 5 ExecuteRaw DuplicateKey) ''orders/create''
     (JsonObject (order_for (Num 1001) ''c1'' ''25.00'')) empty_store =
   (failed (failing 5 ExecuteRaw DuplicateKey) DuplicateKey, empty_store)"
proof -
  have h1: "has_customer (order_for (Num 1001) ''c1'' ''25.00'') ''c1''"
    by (simp add: has_customer_def sample_defs)
  have h2: "\<not> le_zero (points_of (order_for (Num 1001) ''c1'' ''25.00''))"
    by (simp add: run_defs parse_defs sample_defs)
  have h3: "fault (failing 5 ExecuteRaw DuplicateKey) QueryRaw = None"
    by (simp add: sample_defs)
  have h4: "\<not> marked (event_key (order_id (order_for (Num 1001) ''c1'' ''25.00''))) empty_store"
    by (simp add: marked_def sample_defs)
  have h5: "fault (failing 5 ExecuteRaw DuplicateKey) ExecuteRaw = Some DuplicateKey"
    by (simp add: sample_defs)
  show ?thesis
    using failed_marker_insert_is_server_error [OF h1 h2 h3 h4 h5] h1 h2 h3 h4 h5 by simp
qed

text \<open>
  C9: every invocation ends in a response, with status 200, 400 or 500. Whatever is thrown
  inside the \<open>try\<close> block is caught and answered with status 500 and the message of the
  error, the store staying as the block left it. In particular, on the commit path a store
  error in the marker insert, in the update of an existing entry or in the creation of a
  new one gives that 500 response.
\<close>

theorem failures_become_responses:
  "(status (fst (action e topic p st)) = 200 \<or> status (fst (action e topic p st)) = 400 \<or>
    status (fst (action e topic p st)) = 500) \<and>
   (process e p st = (Inl x, st') \<longrightarrow>
      action e ''orders/create'' p st = (failed e x, st') \<and> status (failed e x) = 500) \<and>
   (has_customer ord cid \<and> \<not> le_zero (points_of ord) \<and> fault e QueryRaw = None \<and>
    \<not> marked (event_key (order_id ord)) st \<longrightarrow>
      (fault e ExecuteRaw = Some x1 \<longrightarrow>
         fst (action e ''orders/create'' (JsonObject ord) st) = failed e x1) \<and>
      (fault e ExecuteRaw = None \<and> fault e FindUnique = None \<and> entry st cid \<noteq> None \<and>
       fault e Update = Some x2 \<longrightarrow>
         fst (action e ''orders/create'' (JsonObject ord) st) = failed e x2) \<and>
      (fault e ExecuteRaw = None \<and> fault e FindUnique = None \<and> entry st cid = None \<and>
       fault e Create = Some x3 \<longrightarrow>
         fst (action e ''orders/create'' (JsonObject ord) st) = failed e x3))"
proof (intro conjI impI)
  show "status (fst (action e topic p st)) = 200 \<or> status (fst (action e topic p st)) = 400 \<or>
    status (fst (action e topic p st)) = 500"
    by (rule action_status)
next
  assume "process e p st = (Inl x, st')"
  then show "action e ''orders/create'' p st = (failed e x, st')"
    by (simp add: action_def)
next
  show "status (failed e x) = 500" by (rule failed_status)
next
  assume path: "has_customer ord cid \<and> \<not> le_zero (points_of ord) \<and> fault e QueryRaw = None \<and>
    \<not> marked (event_key (order_id ord)) st"
  then have act: "action e ''orders/create'' (JsonObject ord) st =
           (case award e (event_key (order_id ord)) cid (points_of ord) st of
              (Inl x, st') \<Rightarrow> (failed e x, st')
            | (Inr r, st') \<Rightarrow> (r, st'))"
    using action_unmarked by blast
  {
    assume "fault e ExecuteRaw = Some x1"
    then show "fst (action e ''orders/create'' (JsonObject ord) st) = failed e x1"
      by (simp add: act award_insert_fault)
  next
    assume "fault e ExecuteRaw = None \<and> fault e FindUnique = None \<and> entry st cid \<noteq> None \<and>
       fault e Update = Some x2"
    then obtain row where "fault e ExecuteRaw = None" "fault e FindUnique = None"
      "entry st cid = Some row" "fault e Update = Some x2" by blast
    then show "fst (action e ''orders/create'' (JsonObject ord) st) = failed e x2"
      by (simp add: act award_update_fault)
  next
    assume "fault e ExecuteRaw = None \<and> fault e FindUnique = None \<and> entry st cid = None \<and>
       fault e Create = Some x3"
    then show "fst (action e ''orders/create'' (JsonObject ord) st) = failed e x3"
      by (simp add: act award_create_fault)
  }
qed

theorem failures_become_responses_witness:
  "process (failing 5 ExecuteRaw StoreUnavailable)
     (JsonObject (order_for (Num 1001) ''c1'' ''25.00'')) empty_store =
     (Inl StoreUnavailable, empty_store) \<and>
   action (failing 5 ExecuteRaw StoreUnavailable) ''orders/create''
     (JsonObject (order_for (Num 1001) ''c1'' ''25.00'')) empty_store =
     (\<lparr>status = 500, body = ''Error processing webhook: StoreUnavailable''\<rparr>, empty_store) \<and>
   has_customer (order_for (Num 1001) ''c1'' ''25.00'') ''c1'' \<and>
   \<not> le_zero (points_of (order_for (Num 1001) ''c1'' ''25.00'')) \<and>
   \<not> marked (event_key (order_id (order_for (Num 1001) ''c1'' ''25.00''))) empty_store \<and>
   fault (failing 5 ExecuteRaw StoreUnavailable) QueryRaw = None \<and>
   fault (failing 5 ExecuteRaw StoreUnavailable) ExecuteRaw = Some StoreUnavailable \<and>
   fault (failing 5 Update StoreUnavailable) QueryRaw = None \<and>
   fault (failing 5 Update StoreUnavailable) ExecuteRaw = None \<and>
   fault (failing 5 Update StoreUnavailable) FindUnique = None \<and>
   fault (failing 5 Update StoreUnavailable) Update = Some StoreUnavailable \<and>
   \<not> marked (event_key (order_id (order_for (Num 1001) ''c1'' ''25.00'')))
     \<lparr>prisma_migrations = [],
      loyaltyPoints = [\<lparr>customerId = ''c1'', points = 5, updatedAt = 1\<rparr>]\<rparr> \<and>
   entry \<lparr>prisma_migrations = [],
          loyaltyPoints = [\<lparr>customerId = ''c1'', points = 5, updatedAt = 1\<rparr>]\<rparr> ''c1'' \<noteq> None \<and>
   fst (action (failing 5 Update StoreUnavailable) ''orders/create''
         (JsonObject (order_for (Num 1001) ''c1'' ''25.00''))
         \<lparr>prisma_migrations = [],
          loyaltyPoints = [\<lparr>customerId = ''c1'', points = 5, updatedAt = 1\<rparr>]\<rparr>) =
     \<lparr>status = 500, body = ''Error processing webhook: StoreUnavailable''\<rparr> \<and>
   fault (failing 5 Create StoreUnavailable) QueryRaw = None \<and>
   fault (failing 5 Create StoreUnavailable) ExecuteRaw = None \<and>
   fault (failing 5 Create StoreUnavailable) FindUnique = None \<and>
   fault (failing 5 Create StoreUnavailable) Create = Some StoreUnavailable \<and>
   entry empty_store ''c1'' = None \<and>
   fst (action (failing 5 Create StoreUnavailable) ''orders/create''
         (JsonObject (order_for (Num 1001) ''c1'' ''25.00'')) empty_store) =
     \<lparr>status = 500, body = ''Error processing webhook: StoreUnavailable''\<rparr>"
proof -
  let ?ord = "order_for (Num 1001) ''c1'' ''25.00''"
  let ?st = "\<lparr>prisma_migrations = [],
              loyaltyPoints = [\<lparr>customerId = ''c1'', points = 5, updatedAt = 1\<rparr>]\<rparr>"
  have thrown: "process (failing 5 ExecuteRaw StoreUnavailable) (JsonObject ?ord) empty_store =
      (Inl StoreUnavailable, empty_store)"
    by (simp add: run_defs parse_defs sample_defs)
  have c: "has_customer ?ord ''c1''" by (simp add: has_customer_def sample_defs)
  have z: "\<not> le_zero (points_of ?ord)"
    by (simp add: points_of_def subtotal_of_def parse_defs sample_defs)
  have m0: "\<not> marked (event_key (order_id ?ord)) empty_store"
    by (simp add: marked_def sample_defs)
  have m1: "\<not> marked (event_key (order_id ?ord)) ?st"
    by (simp add: marked_def)
  have f1: "fault (failing 5 ExecuteRaw StoreUnavailable) QueryRaw = None \<and>
            fault (failing 5 ExecuteRaw StoreUnavailable) ExecuteRaw = Some StoreUnavailable"
    by (simp add: sample_defs)
  have f2: "fault (failing 5 Update StoreUnavailable) QueryRaw = None \<and>
            fault (failing 5 Update StoreUnavailable) ExecuteRaw = None \<and>
            fault (failing 5 Update StoreUnavailable) FindUnique = None \<and>
            fault (failing 5 Update StoreUnavailable) Update = Some StoreUnavailable"
    by (simp add: sample_defs)
  have f3: "fault (failing 5 Create StoreUnavailable) QueryRaw = None \<and>
            fault (failing 5 Create StoreUnavailable) ExecuteRaw = None \<and>
            fault (failing 5 Create StoreUnavailable) FindUnique = None \<and>
            fault (failing 5 Create StoreUnavailable) Create = Some StoreUnavailable"
    by (simp add: sample_defs)
  have e1: "entry ?st ''c1'' \<noteq> None" by (simp add: entry_def)
  have e0: "entry empty_store ''c1'' = None" by (simp add: entry_def sample_defs)
  have msg: "failed (failing 5 c StoreUnavailable) StoreUnavailable =
      \<lparr>status = 500, body = ''Error processing webhook: StoreUnavailable''\<rparr>" for c
    by (simp add: failed_def sample_defs)
  show ?thesis
    using failures_become_responses [where e = "failing 5 ExecuteRaw StoreUnavailable"
        and p = "JsonObject ?ord" and st = empty_store and x = StoreUnavailable
        and st' = empty_store and ord = ?ord and cid = "''c1''" and ?x1.0 = StoreUnavailable]
      failures_become_responses [where e = "failing 5 Update StoreUnavailable"
        and st = ?st and ord = ?ord and cid = "''c1''" and ?x2.0 = StoreUnavailable]
      failures_become_responses [where e = "failing 5 Create StoreUnavailable"
        and st = empty_store and ord = ?ord and cid = "''c1''" and ?x3.0 = StoreUnavailable]
      thrown c z m0 m1 f1 f2 f3 e1 e0
    by (simp add: msg)
qed

end
